theory Spec2Isabelle
  imports Complex_Main "HOL-Library.Multiset" "HOL-Library.List_Lexorder" "HOL-Library.Char_ord"
begin

section \<open>Trades and realized P\&L\<close>

text \<open>
  A journal entry, reduced to the fields the calculators read.  JavaScript numbers are
  modelled as real numbers, so rounding of IEEE doubles is outside the model.  The status
  is the string the source compares with \<^verbatim>\<open>===\<close>; any status other than
  \<^verbatim>\<open>'closed'\<close> and \<^verbatim>\<open>'trimmed'\<close> is an open position for the statistics.
\<close>

record trade =
  t_id :: nat
  status :: string
  pnl :: real
  trimHistory :: "real list"

text \<open>
  Modelled from the spec: \<^verbatim>\<open>getTradeRealizedPnL\<close> and \<^verbatim>\<open>calculateRealizedPnL\<close> of
  \<^verbatim>\<open>core/utils/tradeCalculations.js\<close>, which is not among the sources.  A closed trade
  yields its stored final P\&L, a trimmed trade the sum of the P\&L of its trim history
  (kept here as the list of the \<^verbatim>\<open>pnl\<close> fields of the trims), an open trade yields 0.
  The batch function sums over closed and trimmed trades only.
\<close>

definition getTradeRealizedPnL :: "trade \<Rightarrow> real" where
  "getTradeRealizedPnL t =
     (if status t = ''closed'' then pnl t
      else if status t = ''trimmed'' then sum_list (trimHistory t)
      else 0)"

definition calculateRealizedPnL :: "trade list \<Rightarrow> real" where
  "calculateRealizedPnL trades =
     sum_list (map getTradeRealizedPnL
       (filter (\<lambda>e. status e = ''closed'' \<or> status e = ''trimmed'') trades))"

section \<open>StatsCalculator, straight-line version\<close>

record wins_losses =
  wl_wins :: nat
  wl_losses :: nat
  wl_total :: nat

definition calculateWinRate :: "trade list \<Rightarrow> real option" where
  "calculateWinRate trades =
     (let closedTrades = filter (\<lambda>e. status e = ''closed'' \<or> status e = ''trimmed'') trades in
      if length closedTrades = 0 then None
      else
        let wins = filter (\<lambda>t. getTradeRealizedPnL t > 0) closedTrades in
        Some ((real (length wins) / real (length closedTrades)) * 100))"

definition calculateWinsLosses :: "trade list \<Rightarrow> wins_losses" where
  "calculateWinsLosses trades =
     (let closedTrades = filter (\<lambda>e. status e = ''closed'' \<or> status e = ''trimmed'') trades;
          wins = filter (\<lambda>t. getTradeRealizedPnL t > 0) closedTrades;
          losses = filter (\<lambda>t. getTradeRealizedPnL t \<le> 0) closedTrades
      in \<lparr>wl_wins = length wins, wl_losses = length losses, wl_total = length closedTrades\<rparr>)"

definition calculateAvgWinLossRatio :: "trade list \<Rightarrow> real option" where
  "calculateAvgWinLossRatio trades =
     (let closedTrades = filter (\<lambda>e. status e = ''closed'' \<or> status e = ''trimmed'') trades in
      if length closedTrades = 0 then None
      else
        let wins = filter (\<lambda>t. getTradeRealizedPnL t > 0) closedTrades;
            losses = filter (\<lambda>t. getTradeRealizedPnL t < 0) closedTrades
        in
        if length wins = 0 \<or> length losses = 0 then None
        else
          let totalWins = foldl (\<lambda>sum t. sum + getTradeRealizedPnL t) 0 wins;
              totalLosses = foldl (\<lambda>sum t. sum + getTradeRealizedPnL t) 0 losses;
              avgWin = totalWins / real (length wins);
              avgLoss = \<bar>totalLosses / real (length losses)\<bar>
          in if avgLoss = 0 then None else Some (avgWin / avgLoss))"

definition calculateTradeExpectancy :: "trade list \<Rightarrow> real option" where
  "calculateTradeExpectancy trades =
     (let closedTrades = filter (\<lambda>e. status e = ''closed'' \<or> status e = ''trimmed'') trades in
      if length closedTrades = 0 then None
      else
        let wins = filter (\<lambda>t. getTradeRealizedPnL t > 0) closedTrades;
            losses = filter (\<lambda>t. getTradeRealizedPnL t < 0) closedTrades;
            totalTrades = length closedTrades;
            winRate = real (length wins) / real totalTrades;
            lossRate = real (length losses) / real totalTrades;
            totalWins = foldl (\<lambda>sum t. sum + getTradeRealizedPnL t) 0 wins;
            totalLosses = foldl (\<lambda>sum t. sum + getTradeRealizedPnL t) 0 losses;
            avgWin = (if length wins > 0 then totalWins / real (length wins) else 0);
            avgLoss = (if length losses > 0 then totalLosses / real (length losses) else 0)
        in Some ((winRate * avgWin) + (lossRate * avgLoss)))"

section \<open>StatsCalculator, refactored version\<close>

text \<open>
  The refactored class computes every metric from \<^verbatim>\<open>_getClosedTradeMetrics\<close>, whose
  \<^verbatim>\<open>for\<close> loop sends a trade to \<^verbatim>\<open>wins\<close> when its P\&L is positive and to
  \<^verbatim>\<open>losses\<close> otherwise, adding the P\&L to the matching running total.
\<close>

record closed_trade_metrics =
  m_closedTrades :: "trade list"
  m_wins :: "trade list"
  m_losses :: "trade list"
  m_totalWins :: real
  m_totalLosses :: real
  m_winRate :: "real option"
  m_winsCount :: nat
  m_lossesCount :: nat

fun metricsLoop ::
  "trade list \<Rightarrow> trade list \<times> trade list \<times> real \<times> real \<Rightarrow> trade list \<times> trade list \<times> real \<times> real"
where
  "metricsLoop [] acc = acc"
| "metricsLoop (trade # rest) (wins, losses, totalWins, totalLosses) =
     (let pnl = getTradeRealizedPnL trade in
      if pnl > 0 then metricsLoop rest (wins @ [trade], losses, totalWins + pnl, totalLosses)
      else metricsLoop rest (wins, losses @ [trade], totalWins, totalLosses + pnl))"

definition getClosedTradeMetrics :: "trade list \<Rightarrow> closed_trade_metrics" where
  "getClosedTradeMetrics trades =
     (let closedTrades = filter (\<lambda>e. status e = ''closed'' \<or> status e = ''trimmed'') trades in
      if length closedTrades = 0 then
        \<lparr>m_closedTrades = [], m_wins = [], m_losses = [], m_totalWins = 0, m_totalLosses = 0,
         m_winRate = None, m_winsCount = 0, m_lossesCount = 0\<rparr>
      else
        case metricsLoop closedTrades ([], [], 0, 0) of
          (wins, losses, totalWins, totalLosses) \<Rightarrow>
            \<lparr>m_closedTrades = closedTrades, m_wins = wins, m_losses = losses,
             m_totalWins = totalWins, m_totalLosses = totalLosses,
             m_winRate = Some ((real (length wins) / real (length closedTrades)) * 100),
             m_winsCount = length wins, m_lossesCount = length losses\<rparr>)"

definition calculateWinRate2 :: "trade list \<Rightarrow> real option" where
  "calculateWinRate2 trades = m_winRate (getClosedTradeMetrics trades)"

definition calculateWinsLosses2 :: "trade list \<Rightarrow> wins_losses" where
  "calculateWinsLosses2 trades =
     (let metrics = getClosedTradeMetrics trades in
      \<lparr>wl_wins = m_winsCount metrics, wl_losses = m_lossesCount metrics,
       wl_total = length (m_closedTrades metrics)\<rparr>)"

definition calculateAvgWinLossRatio2 :: "trade list \<Rightarrow> real option" where
  "calculateAvgWinLossRatio2 trades =
     (let metrics = getClosedTradeMetrics trades in
      if length (m_wins metrics) = 0 \<or> length (m_losses metrics) = 0 then None
      else
        let avgWin = m_totalWins metrics / real (length (m_wins metrics));
            avgLoss = \<bar>m_totalLosses metrics / real (length (m_losses metrics))\<bar>
        in if avgLoss = 0 then None else Some (avgWin / avgLoss))"

definition calculateProfitFactor2 :: "trade list \<Rightarrow> real option" where
  "calculateProfitFactor2 trades =
     (let metrics = getClosedTradeMetrics trades in
      if length (m_wins metrics) = 0 \<or> length (m_losses metrics) = 0 then None
      else
        let totalLossesAbs = \<bar>m_totalLosses metrics\<bar>
        in if totalLossesAbs = 0 then None else Some (m_totalWins metrics / totalLossesAbs))"

definition calculateTradeExpectancy2 :: "trade list \<Rightarrow> real option" where
  "calculateTradeExpectancy2 trades =
     (let metrics = getClosedTradeMetrics trades in
      if length (m_closedTrades metrics) = 0 then None
      else
        let totalTrades = length (m_closedTrades metrics);
            winRate = real (m_winsCount metrics) / real totalTrades;
            lossRate = real (m_lossesCount metrics) / real totalTrades;
            avgWin = (if m_winsCount metrics > 0
                      then m_totalWins metrics / real (m_winsCount metrics) else 0);
            avgLoss = (if m_lossesCount metrics > 0
                       then m_totalLosses metrics / real (m_lossesCount metrics) else 0)
        in Some ((winRate * avgWin) + (lossRate * avgLoss)))"

section \<open>The statistics as the specification words them\<close>

text \<open>
  Reference definitions that follow the wording of the specification, for comparison with
  the two implementations: the closed or trimmed trades of a list, the win rate as the
  percentage of those with a strictly positive realized P\&L, and the expectancy as the win
  fraction times the average win plus the loss fraction times the average loss, the losing
  trades being those with a strictly negative realized P\&L.
\<close>

definition closedOrTrimmed :: "trade list \<Rightarrow> trade list" where
  "closedOrTrimmed trades = filter (\<lambda>e. status e = ''closed'' \<or> status e = ''trimmed'') trades"

definition spec_winRate :: "trade list \<Rightarrow> real option" where
  "spec_winRate trades =
     (if closedOrTrimmed trades = [] then None
      else Some (100 * real (length (filter (\<lambda>t. getTradeRealizedPnL t > 0) (closedOrTrimmed trades)))
                  / real (length (closedOrTrimmed trades))))"

definition average :: "real list \<Rightarrow> real" where
  "average xs = (if xs = [] then 0 else sum_list xs / real (length xs))"

definition spec_tradeExpectancy :: "trade list \<Rightarrow> real option" where
  "spec_tradeExpectancy trades =
     (let c = closedOrTrimmed trades;
          w = filter (\<lambda>t. getTradeRealizedPnL t > 0) c;
          l = filter (\<lambda>t. getTradeRealizedPnL t < 0) c
      in if c = [] then None
         else Some (real (length w) / real (length c) * average (map getTradeRealizedPnL w)
                  + real (length l) / real (length c) * average (map getTradeRealizedPnL l)))"

definition mkTrade :: "nat \<Rightarrow> string \<Rightarrow> real \<Rightarrow> trade" where
  "mkTrade i s p = \<lparr>t_id = i, status = s, pnl = p, trimHistory = []\<rparr>"

section \<open>End-of-day snapshots\<close>

text \<open>
  An end-of-day snapshot, reduced to the fields read by the code under study.  The field
  \<^verbatim>\<open>cashFlow\<close> is absent from the snapshot that records a failed computation, hence the
  option.  The cache maps a date string to its snapshot.
\<close>

record eod_snapshot =
  balance :: real
  cashFlow :: "real option"
  incomplete :: bool

type_synonym eod_cache = "string \<rightharpoonup> eod_snapshot"

text \<open>
  Modelled from the spec: the three operations of \<^verbatim>\<open>core/eodCacheManager.js\<close>, which is
  not among the sources.  \<^verbatim>\<open>getEODData\<close> returns the stored snapshot or null,
  \<^verbatim>\<open>hasEODData\<close> tells whether a snapshot is stored for the day, and the manager's
  \<^verbatim>\<open>saveEODSnapshot\<close> is an upsert in which the last write wins.
\<close>

definition getEODData :: "eod_cache \<Rightarrow> string \<Rightarrow> eod_snapshot option" where
  "getEODData cache dateStr = cache dateStr"

definition hasEODData :: "eod_cache \<Rightarrow> string \<Rightarrow> bool" where
  "hasEODData cache dateStr = (case cache dateStr of Some _ \<Rightarrow> True | None \<Rightarrow> False)"

definition storeEODSnapshot :: "eod_cache \<Rightarrow> string \<Rightarrow> eod_snapshot \<Rightarrow> eod_cache" where
  "storeEODSnapshot cache dateStr snapshot = cache(dateStr \<mapsto> snapshot)"

subsection \<open>StatsCalculator.getBalanceForDate\<close>

text \<open>
  \<^verbatim>\<open>todayStr\<close> stands for \<^verbatim>\<open>formatDate(getCurrentWeekday())\<close> and \<^verbatim>\<open>currentAccount\<close>
  for the result of \<^verbatim>\<open>calculateCurrentAccount()\<close>; both come from modules outside the
  sources and are parameters.  The result \<open>None\<close> is the \<^verbatim>\<open>null\<close> of the source.
\<close>

definition getBalanceForDate :: "string \<Rightarrow> real \<Rightarrow> eod_cache \<Rightarrow> string \<Rightarrow> real option" where
  "getBalanceForDate todayStr currentAccount cache dateStr =
     (if dateStr = todayStr then Some currentAccount
      else
        case getEODData cache dateStr of
          Some eodData \<Rightarrow> if \<not> incomplete eodData then Some (balance eodData) else None
        | None \<Rightarrow> None)"

subsection \<open>The price-refresh cycle of the statistics page\<close>

text \<open>
  What one run of \<^verbatim>\<open>refreshPrices\<close> reads from its surroundings: the number of active
  (open or trimmed) trades, whether the price fetch returned without throwing, the two
  answers of the market-hours module, the formatted current weekday, and the snapshot
  that \<^verbatim>\<open>saveEODSnapshot\<close> computes (\<open>None\<close> when that computation throws, in which
  case the \<^verbatim>\<open>catch\<close> branch stores an error snapshot marked incomplete).
\<close>

record refresh_env =
  activeTrades :: nat
  pricesFetched :: bool
  isAfterMarketClose :: bool
  tradingDay :: string
  currentWeekday :: string
  computedSnapshot :: "eod_snapshot option"

text \<open>
  The store is the cache together with the log of the days for which the manager's
  \<^verbatim>\<open>saveEODSnapshot\<close> has been called, oldest first; the log makes "committed twice"
  expressible.
\<close>

record eod_store =
  snapshots :: eod_cache
  saveLog :: "string list"

definition commitSnapshot :: "eod_store \<Rightarrow> string \<Rightarrow> eod_snapshot \<Rightarrow> eod_store" where
  "commitSnapshot store dateStr snapshot =
     \<lparr>snapshots = storeEODSnapshot (snapshots store) dateStr snapshot,
      saveLog = saveLog store @ [dateStr]\<rparr>"

definition saveEODSnapshot :: "refresh_env \<Rightarrow> string \<Rightarrow> eod_store \<Rightarrow> eod_store" where
  "saveEODSnapshot env dateStr store =
     (case computedSnapshot env of
        Some snapshot \<Rightarrow> commitSnapshot store dateStr snapshot
      | None \<Rightarrow> commitSnapshot store dateStr \<lparr>balance = 0, cashFlow = None, incomplete = True\<rparr>)"

definition checkAndSaveEOD :: "refresh_env \<Rightarrow> eod_store \<Rightarrow> eod_store" where
  "checkAndSaveEOD env store =
     (let isAfterClose = isAfterMarketClose env;
          tradingDay = tradingDay env;
          currentWeekday = currentWeekday env;
          isActualTradingDay = (tradingDay = currentWeekday)
      in if isAfterClose \<and> \<not> hasEODData (snapshots store) tradingDay \<and> isActualTradingDay
         then saveEODSnapshot env tradingDay store
         else store)"

definition refreshPrices :: "refresh_env \<Rightarrow> eod_store \<Rightarrow> eod_store" where
  "refreshPrices env store =
     (if activeTrades env = 0 then store
      else if \<not> pricesFetched env then store
      else checkAndSaveEOD env store)"

text \<open>The auto-refresh timer runs one cycle after the other.\<close>

fun refreshCycles :: "refresh_env list \<Rightarrow> eod_store \<Rightarrow> eod_store" where
  "refreshCycles [] store = store"
| "refreshCycles (env # envs) store = refreshCycles envs (refreshPrices env store)"

text \<open>
  The log of a store is consistent when it names no day twice and every day it names has a
  stored snapshot; the store of a fresh session, with an empty log, is consistent.
\<close>

definition logConsistent :: "eod_store \<Rightarrow> bool" where
  "logConsistent store \<longleftrightarrow>
     distinct (saveLog store) \<and> list_all (hasEODData (snapshots store)) (saveLog store)"

section \<open>IncrementalStatsCalculator: the checksum-gated cache\<close>

text \<open>
  Trade identifiers are the numbers \<^verbatim>\<open>Date.now()\<close> hands out, so the string form a
  number takes in \<^verbatim>\<open>sort()\<close> and \<^verbatim>\<open>join(',')\<close> is its decimal numeral.  An identifier
  of 0 is falsy and \<^verbatim>\<open>t.id || ''\<close> replaces it by the empty string.
\<close>

definition digitChar :: "nat \<Rightarrow> char" where
  "digitChar n = ''0123456789'' ! n"

function natToString :: "nat \<Rightarrow> string" where
  "natToString n = (if n < 10 then [digitChar n] else natToString (n div 10) @ [digitChar (n mod 10)])"
  by pat_completeness auto
termination
  by (relation "measure (\<lambda>n. n)") auto

declare natToString.simps [simp del]

definition idOrEmpty :: "trade \<Rightarrow> string" where
  "idOrEmpty t = (if t_id t = 0 then [] else natToString (t_id t))"

fun joinComma :: "string list \<Rightarrow> string" where
  "joinComma [] = []"
| "joinComma [x] = x"
| "joinComma (x # y # ys) = x @ '','' @ joinComma (y # ys)"

text \<open>
  The default \<^verbatim>\<open>sort()\<close> orders by the string forms, code unit by code unit, which is the
  lexicographic order on character lists.
\<close>

definition calculateTradeChecksum :: "trade list \<Rightarrow> string" where
  "calculateTradeChecksum trades =
     (if length trades = 0 then ''0''
      else
        let idSum = joinComma (sort (map idOrEmpty trades))
        in natToString (length trades) @ '':'' @ idSum)"

text \<open>
  The cache record, reduced to the count, the checksum and the first two cached
  statistics.  The \<^verbatim>\<open>cache\<close> field of the calculator is null until \<^verbatim>\<open>init\<close> has run,
  hence the option.
\<close>

record stats_cache =
  tradeCount :: nat
  tradeChecksum :: "string option"
  cachedWinRate :: "real option"
  cachedWinsLosses :: wins_losses

definition createEmptyCache :: stats_cache where
  "createEmptyCache =
     \<lparr>tradeCount = 0, tradeChecksum = None, cachedWinRate = None,
      cachedWinsLosses = \<lparr>wl_wins = 0, wl_losses = 0, wl_total = 0\<rparr>\<rparr>"

definition isCacheValid :: "stats_cache option \<Rightarrow> trade list \<Rightarrow> bool" where
  "isCacheValid cache trades =
     (case cache of
        None \<Rightarrow> False
      | Some c \<Rightarrow>
          if tradeCount c = 0 then False
          else
            let currentChecksum = calculateTradeChecksum trades
            in tradeChecksum c = Some currentChecksum)"

text \<open>
  \<^verbatim>\<open>calculateAndCacheStats\<close> returns its result together with the cache it leaves
  behind.  On a valid cache it returns the cache.  Otherwise it calls the methods of the
  parent class in turn: \<^verbatim>\<open>super.calculateWinRate\<close> and \<^verbatim>\<open>super.calculateWinsLosses\<close>
  exist, but the third, \<^verbatim>\<open>super.calculateAverageWin\<close>, is defined by neither of the two
  \<^verbatim>\<open>StatsCalculator\<close> classes, so the call throws a \<^verbatim>\<open>TypeError\<close>, the two results
  computed so far are dropped, and the assignment to \<^verbatim>\<open>this.cache\<close> further down is
  never reached.
\<close>

datatype js_error = TypeError

definition calculateAndCacheStats ::
  "stats_cache option \<Rightarrow> trade list \<Rightarrow> (js_error + stats_cache option) \<times> stats_cache option" where
  "calculateAndCacheStats cache trades =
     (if isCacheValid cache trades then (Inr cache, cache)
      else
        let winRate = calculateWinRate trades;
            winsLosses = calculateWinsLosses trades
        in (Inl TypeError, cache))"

text \<open>The calculator's cache after a series of calls of \<^verbatim>\<open>calculateAndCacheStats\<close>.\<close>

fun cacheAfterCalls :: "trade list list \<Rightarrow> stats_cache option \<Rightarrow> stats_cache option" where
  "cacheAfterCalls [] cache = cache"
| "cacheAfterCalls (trades # rest) cache =
     cacheAfterCalls rest (snd (calculateAndCacheStats cache trades))"

section \<open>PnLCalendar: the monthly grid and its P\&L\<close>

text \<open>
  A JavaScript \<^verbatim>\<open>Date\<close> at local midnight is modelled by the number of its calendar day,
  day 0 being Thursday 1 January 1970; \<^verbatim>\<open>setDate(getDate() - 1)\<close> is then the
  predecessor and \<^verbatim>\<open>getDay()\<close> (0 for Sunday to 6 for Saturday) the function below.
  \<^verbatim>\<open>marketHours.formatDate\<close>, which is outside the sources, is the parameter \<open>fmt\<close>
  from days to date strings.
\<close>

definition getDay :: "int \<Rightarrow> int" where
  "getDay d = (d + 4) mod 7"

function skipWeekends :: "int \<Rightarrow> int" where
  "skipWeekends prevDate =
     (if getDay prevDate = 0 \<or> getDay prevDate = 6 then skipWeekends (prevDate - 1) else prevDate)"
  by pat_completeness auto
termination
  by (relation "measure (\<lambda>d. if getDay d = 0 then 2 else if getDay d = 6 then 1 else 0)")
     (auto simp add: getDay_def, presburger+)

declare skipWeekends.simps [simp del]

definition getPreviousBusinessDay :: "int \<Rightarrow> int" where
  "getPreviousBusinessDay date = skipWeekends (date - 1)"

record day_cell =
  date :: int
  isCurrentMonth :: bool
  isWeekend :: bool

definition mkDay :: "int \<Rightarrow> bool \<Rightarrow> day_cell" where
  "mkDay d cur = \<lparr>date = d, isCurrentMonth = cur, isWeekend = (getDay d = 0 \<or> getDay d = 6)\<rparr>"

text \<open>
  The displayed month enters as the day number \<open>firstDay\<close> of its first day and its
  number of days \<open>monthLen\<close> (what \<^verbatim>\<open>lastDay.getDate()\<close> returns); every \<^verbatim>\<open>new Date(y, m, d)\<close>
  of \<^verbatim>\<open>_getDaysInMonth\<close> is a fixed offset from one of the two.
\<close>

definition getDaysInMonth :: "int \<Rightarrow> nat \<Rightarrow> day_cell list" where
  "getDaysInMonth firstDay monthLen =
     (let lastDay = firstDay + int monthLen - 1;
          firstDayOfWeek = nat (getDay firstDay);
          leading = (if firstDayOfWeek > 0
                     then map (\<lambda>i. mkDay ((firstDay - 1) - int i) False) (rev [0..<firstDayOfWeek])
                     else []);
          current = map (\<lambda>day. mkDay (firstDay + int day - 1) True) [1..<monthLen + 1];
          lastDayOfWeek = nat (getDay lastDay);
          trailing = (if lastDayOfWeek < 6
                      then map (\<lambda>i. mkDay (lastDay + int i) False) [1..<(6 - lastDayOfWeek) + 1]
                      else [])
      in leading @ current @ trailing)"

record day_data =
  d_pnl :: real
  d_balance :: real
  d_cashFlow :: real

type_synonym month_data = "string \<rightharpoonup> day_data"

record calendar =
  monthData :: month_data
  isCalculating :: bool

text \<open>
  One pass of the loop body of \<^verbatim>\<open>calculateMonthData\<close>: \<open>None\<close> is a \<^verbatim>\<open>continue\<close>,
  otherwise the key and the value given to \<^verbatim>\<open>monthData.set\<close>.  A \<^verbatim>\<open>Date\<close> is never
  falsy, so the previous date string is always present; the branch for its absence is
  kept as the source has it.
\<close>

definition monthDayEntry ::
  "(int \<Rightarrow> string) \<Rightarrow> eod_cache \<Rightarrow> real \<Rightarrow> day_cell \<Rightarrow> (string \<times> day_data) option" where
  "monthDayEntry fmt cache startingAccountSize day =
     (if \<not> isCurrentMonth day then None
      else
        let dateStr = fmt (date day);
            prevDate = getPreviousBusinessDay (date day);
            prevDateStr = Some (fmt prevDate)
        in case getEODData cache dateStr of
             None \<Rightarrow> None
           | Some eodData \<Rightarrow>
               if incomplete eodData then None
               else
                 let bal = balance eodData;
                     cf = (case cashFlow eodData of Some c \<Rightarrow> c | None \<Rightarrow> 0);
                     prevBalance =
                       (case prevDateStr of
                          None \<Rightarrow> startingAccountSize
                        | Some p \<Rightarrow>
                            (case getEODData cache p of
                               Some prevEodData \<Rightarrow>
                                 if \<not> incomplete prevEodData then balance prevEodData
                                 else startingAccountSize
                             | None \<Rightarrow> startingAccountSize));
                     dailyPnL = bal - prevBalance - cf
                 in Some (dateStr, \<lparr>d_pnl = dailyPnL, d_balance = bal, d_cashFlow = cf\<rparr>))"

fun monthLoop ::
  "(int \<Rightarrow> string) \<Rightarrow> eod_cache \<Rightarrow> real \<Rightarrow> day_cell list \<Rightarrow> month_data \<Rightarrow> month_data" where
  "monthLoop fmt cache startingAccountSize [] md = md"
| "monthLoop fmt cache startingAccountSize (day # days) md =
     (case monthDayEntry fmt cache startingAccountSize day of
        None \<Rightarrow> monthLoop fmt cache startingAccountSize days md
      | Some (dateStr, entry) \<Rightarrow>
          monthLoop fmt cache startingAccountSize days (md(dateStr \<mapsto> entry)))"

definition calculateMonthData ::
  "(int \<Rightarrow> string) \<Rightarrow> eod_cache \<Rightarrow> real \<Rightarrow> int \<Rightarrow> nat \<Rightarrow> calendar \<Rightarrow> calendar" where
  "calculateMonthData fmt cache startingAccountSize firstDay monthLen cal =
     (if isCalculating cal then cal
      else
        \<lparr>monthData = monthLoop fmt cache startingAccountSize
                       (getDaysInMonth firstDay monthLen) Map.empty,
         isCalculating = False\<rparr>)"

text \<open>
  \<^verbatim>\<open>_calculateWeeklyPnL\<close>: the loop over \<open>i\<close> from 1 to 5 with its two accumulators.
  The function is called from \<^verbatim>\<open>_buildDayCells\<close> with the index of the Saturday cell
  itself, so every index it reads lies below the length of the grid.
\<close>

fun weeklyLoop ::
  "(int \<Rightarrow> string) \<Rightarrow> month_data \<Rightarrow> int \<Rightarrow> day_cell list \<Rightarrow> nat list \<Rightarrow> real \<times> bool \<Rightarrow> real \<times> bool"
where
  "weeklyLoop fmt md saturdayIndex days [] acc = acc"
| "weeklyLoop fmt md saturdayIndex days (i # rest) (weeklyTotal, hasData) =
     (let dayIndex = saturdayIndex - int i in
      if dayIndex < 0 then weeklyLoop fmt md saturdayIndex days rest (weeklyTotal, hasData)
      else
        let day = days ! nat dayIndex;
            dateStr = fmt (date day)
        in case md dateStr of
             Some dayData \<Rightarrow>
               weeklyLoop fmt md saturdayIndex days rest (weeklyTotal + d_pnl dayData, True)
           | None \<Rightarrow> weeklyLoop fmt md saturdayIndex days rest (weeklyTotal, hasData))"

definition calculateWeeklyPnL ::
  "(int \<Rightarrow> string) \<Rightarrow> month_data \<Rightarrow> int \<Rightarrow> int \<Rightarrow> day_cell list \<Rightarrow> real option" where
  "calculateWeeklyPnL fmt md saturdayDate saturdayIndex days =
     (case weeklyLoop fmt md saturdayIndex days [1, 2, 3, 4, 5] (0, False) of
        (weeklyTotal, hasData) \<Rightarrow> if hasData then Some weeklyTotal else None)"

definition getWeekRange :: "(int \<Rightarrow> string) \<Rightarrow> int \<Rightarrow> string \<times> string" where
  "getWeekRange fmt saturdayDate =
     (let monday = saturdayDate - 5;
          friday = saturdayDate - 1
      in (fmt monday, fmt friday))"

text \<open>
  A concrete injective rendering of day numbers, the decimal numeral with a sign, used
  where a statement needs some formatter to run on.
\<close>

definition dayKey :: "int \<Rightarrow> string" where
  "dayKey d = (if d < 0 then CHR ''-'' # natToString (nat (- d)) else natToString (nat d))"

text \<open>The grid is a run of consecutive days that starts on a Sunday.\<close>

definition gridStart :: "int \<Rightarrow> int" where
  "gridStart firstDay = firstDay - getDay firstDay"

definition gridLength :: "int \<Rightarrow> nat \<Rightarrow> nat" where
  "gridLength firstDay monthLen =
     nat (getDay firstDay) + monthLen + (6 - nat (getDay (firstDay + int monthLen - 1)))"

text \<open>
  The calendar's entry for a day of the displayed month as the code computes it, worded
  as a function of the day: no entry when the day's own snapshot is missing or incomplete;
  otherwise the balance minus the previous balance minus the day's cash flow, where the
  previous balance is the balance of the previous business day's snapshot when that one is
  present and complete, and the starting account size otherwise.
\<close>

definition cashFlowOrZero :: "eod_snapshot \<Rightarrow> real" where
  "cashFlowOrZero e = (case cashFlow e of Some c \<Rightarrow> c | None \<Rightarrow> 0)"

definition previousBalance :: "(int \<Rightarrow> string) \<Rightarrow> eod_cache \<Rightarrow> real \<Rightarrow> int \<Rightarrow> real" where
  "previousBalance fmt cache startingAccountSize d =
     (case getEODData cache (fmt (getPreviousBusinessDay d)) of
        Some p \<Rightarrow> if incomplete p then startingAccountSize else balance p
      | None \<Rightarrow> startingAccountSize)"

definition calendarDay :: "(int \<Rightarrow> string) \<Rightarrow> eod_cache \<Rightarrow> real \<Rightarrow> int \<Rightarrow> day_data option" where
  "calendarDay fmt cache startingAccountSize d =
     (case getEODData cache (fmt d) of
        None \<Rightarrow> None
      | Some e \<Rightarrow>
          if incomplete e then None
          else Some \<lparr>d_pnl = balance e - previousBalance fmt cache startingAccountSize d - cashFlowOrZero e,
                     d_balance = balance e, d_cashFlow = cashFlowOrZero e\<rparr>)"

text \<open>
  The weekly P\&L as the specification words it: the sum of the daily P\&L entries of the
  five days before the Saturday, skipping the days without an entry, and no value when
  none of the five has one.
\<close>

definition weekdaysBefore :: "int \<Rightarrow> int list" where
  "weekdaysBefore saturdayDate =
     [saturdayDate - 1, saturdayDate - 2, saturdayDate - 3, saturdayDate - 4, saturdayDate - 5]"

definition spec_weeklyPnL :: "(int \<Rightarrow> string) \<Rightarrow> month_data \<Rightarrow> int \<Rightarrow> real option" where
  "spec_weeklyPnL fmt md saturdayDate =
     (let found = concat (map (\<lambda>d. case md (fmt d) of Some x \<Rightarrow> [d_pnl x] | None \<Rightarrow> [])
                              (weekdaysBefore saturdayDate))
      in if found = [] then None else Some (sum_list found))"

text \<open>
  A cache for the last week of July 2026: complete snapshots for Friday 24 July (day
  20658, balance 10000) and for Monday 27 to Friday 31 July (days 20661 to 20665), whose
  balances give daily P\&L of 100, -50, 25, 0 and 75.  Saturday 1 August is day 20666.
\<close>

definition lastWeekOfJuly2026 :: eod_cache where
  "lastWeekOfJuly2026 =
     Map.empty(dayKey 20658 \<mapsto> \<lparr>balance = 10000, cashFlow = Some 0, incomplete = False\<rparr>,
               dayKey 20661 \<mapsto> \<lparr>balance = 10100, cashFlow = Some 0, incomplete = False\<rparr>,
               dayKey 20662 \<mapsto> \<lparr>balance = 10050, cashFlow = Some 0, incomplete = False\<rparr>,
               dayKey 20663 \<mapsto> \<lparr>balance = 10075, cashFlow = Some 0, incomplete = False\<rparr>,
               dayKey 20664 \<mapsto> \<lparr>balance = 10075, cashFlow = Some 0, incomplete = False\<rparr>,
               dayKey 20665 \<mapsto> \<lparr>balance = 10150, cashFlow = Some 0, incomplete = False\<rparr>)"

section \<open>AppState: the computed account size and its cache\<close>

text \<open>
  The part of the application state that the getters \<^verbatim>\<open>realizedPnL\<close> and
  \<^verbatim>\<open>currentSize\<close> read: the starting account size of the settings, the journal entries,
  the cash-flow record with its transaction list and its two running totals, and the
  account cache with the two cached values, the three dependency hashes and the hashes
  that \<^verbatim>\<open>_needsRecalculation\<close> parks in \<^verbatim>\<open>_tempHashes\<close>.  A \<^verbatim>\<open>null\<close> is \<open>None\<close>.  No operation of the model throws, so the \<^verbatim>\<open>catch\<close>
  branch of \<^verbatim>\<open>currentSize\<close> is never entered and is left out.
\<close>

record cash_tx =
  tx_id :: nat
  tx_type :: string
  tx_amount :: real

record account_cache =
  c_realizedPnL :: "real option"
  c_currentSize :: "real option"
  dep_tradesHash :: "real option"
  dep_cashFlowHash :: "real option"
  dep_startingBalance :: "real option"
  tempHashes :: "(real \<times> real \<times> real) option"

record app_state =
  settings_startingAccountSize :: real
  journal_entries :: "trade list"
  cashFlow_transactions :: "cash_tx list"
  cashFlow_totalDeposits :: real
  cashFlow_totalWithdrawals :: real
  accountCache :: account_cache

definition initialState :: app_state where
  "initialState =
     \<lparr>settings_startingAccountSize = 10000, journal_entries = [], cashFlow_transactions = [],
      cashFlow_totalDeposits = 0, cashFlow_totalWithdrawals = 0,
      accountCache = \<lparr>c_realizedPnL = None, c_currentSize = None, dep_tradesHash = None,
                      dep_cashFlowHash = None, dep_startingBalance = None, tempHashes = None\<rparr>\<rparr>"

definition hashTrades :: "app_state \<Rightarrow> real" where
  "hashTrades s =
     real (length (journal_entries s)) +
     foldl (\<lambda>sum t. sum + real (t_id t) + getTradeRealizedPnL t) 0 (journal_entries s)"

definition hashCashFlow :: "app_state \<Rightarrow> real" where
  "hashCashFlow s =
     real (length (cashFlow_transactions s)) + cashFlow_totalDeposits s + cashFlow_totalWithdrawals s"

definition needsRecalculation :: "app_state \<Rightarrow> bool \<times> app_state" where
  "needsRecalculation s =
     (let tradesHash = hashTrades s;
          cashFlowHash = hashCashFlow s;
          startingBalance = settings_startingAccountSize s;
          changed = (Some tradesHash \<noteq> dep_tradesHash (accountCache s) \<or>
                     Some cashFlowHash \<noteq> dep_cashFlowHash (accountCache s) \<or>
                     Some startingBalance \<noteq> dep_startingBalance (accountCache s))
      in if changed
         then (changed, s\<lparr>accountCache := (accountCache s)
                 \<lparr>tempHashes := Some (tradesHash, cashFlowHash, startingBalance)\<rparr>\<rparr>)
         else (changed, s))"

definition updateCacheDependencies :: "app_state \<Rightarrow> app_state" where
  "updateCacheDependencies s =
     (case tempHashes (accountCache s) of
        Some (tradesHash, cashFlowHash, startingBalance) \<Rightarrow>
          s\<lparr>accountCache := (accountCache s)
              \<lparr>dep_tradesHash := Some tradesHash, dep_cashFlowHash := Some cashFlowHash,
               dep_startingBalance := Some startingBalance, tempHashes := None\<rparr>\<rparr>
      | None \<Rightarrow>
          s\<lparr>accountCache := (accountCache s)
              \<lparr>dep_tradesHash := Some (hashTrades s), dep_cashFlowHash := Some (hashCashFlow s),
               dep_startingBalance := Some (settings_startingAccountSize s)\<rparr>\<rparr>)"

definition invalidateAccountCache :: "app_state \<Rightarrow> app_state" where
  "invalidateAccountCache s =
     s\<lparr>accountCache := (accountCache s)\<lparr>c_realizedPnL := None, c_currentSize := None\<rparr>\<rparr>"

text \<open>
  The getters return the value together with the state they leave behind.  The
  \<^verbatim>\<open>&&\<close> of the cache check does not call \<^verbatim>\<open>_needsRecalculation\<close> when the cached
  value is null.
\<close>

definition recalculateRealizedPnL :: "app_state \<Rightarrow> real \<times> app_state" where
  "recalculateRealizedPnL s =
     (let pnl = calculateRealizedPnL (journal_entries s);
          s1 = s\<lparr>accountCache := (accountCache s)\<lparr>c_realizedPnL := Some pnl\<rparr>\<rparr>
      in (pnl, updateCacheDependencies s1))"

definition get_realizedPnL :: "app_state \<Rightarrow> real \<times> app_state" where
  "get_realizedPnL s =
     (case c_realizedPnL (accountCache s) of
        None \<Rightarrow> recalculateRealizedPnL s
      | Some cached \<Rightarrow>
          (case needsRecalculation s of
             (changed, s1) \<Rightarrow> if \<not> changed then (cached, s1) else recalculateRealizedPnL s1))"

definition getCashFlowNet :: "app_state \<Rightarrow> real" where
  "getCashFlowNet s = cashFlow_totalDeposits s - cashFlow_totalWithdrawals s"

definition recalculateCurrentSize :: "app_state \<Rightarrow> real \<times> app_state" where
  "recalculateCurrentSize s =
     (let netCashFlow = getCashFlowNet s in
      case get_realizedPnL s of
        (realizedPnL, s1) \<Rightarrow>
          let size = settings_startingAccountSize s + realizedPnL + netCashFlow
          in (size, s1\<lparr>accountCache := (accountCache s1)\<lparr>c_currentSize := Some size\<rparr>\<rparr>))"

definition get_currentSize :: "app_state \<Rightarrow> real \<times> app_state" where
  "get_currentSize s =
     (case c_currentSize (accountCache s) of
        None \<Rightarrow> recalculateCurrentSize s
      | Some cached \<Rightarrow>
          (case needsRecalculation s of
             (changed, s1) \<Rightarrow> if \<not> changed then (cached, s1) else recalculateCurrentSize s1))"

text \<open>
  The mutators.  \<^verbatim>\<open>updateSettings\<close> assigns the new settings and does not touch the
  account cache; the cash-flow and journal mutators invalidate it, and the two cash-flow
  mutators then read \<^verbatim>\<open>currentSize\<close> for the event they emit.  Identifiers and
  timestamps come from the clock and are parameters.
\<close>

definition updateSettings :: "real \<Rightarrow> app_state \<Rightarrow> app_state" where
  "updateSettings newStartingAccountSize s = s\<lparr>settings_startingAccountSize := newStartingAccountSize\<rparr>"

definition addCashFlowTransaction :: "nat \<Rightarrow> string \<Rightarrow> real \<Rightarrow> app_state \<Rightarrow> app_state" where
  "addCashFlowTransaction newId type amount s =
     (let transaction = \<lparr>tx_id = newId, tx_type = type, tx_amount = amount\<rparr>;
          s1 = s\<lparr>cashFlow_transactions := transaction # cashFlow_transactions s\<rparr>;
          s2 = (if type = ''deposit''
                then s1\<lparr>cashFlow_totalDeposits := cashFlow_totalDeposits s1 + amount\<rparr>
                else if type = ''withdrawal''
                then s1\<lparr>cashFlow_totalWithdrawals := cashFlow_totalWithdrawals s1 + amount\<rparr>
                else s1);
          s3 = invalidateAccountCache s2
      in snd (get_currentSize s3))"

definition addJournalEntry :: "trade \<Rightarrow> app_state \<Rightarrow> app_state" where
  "addJournalEntry newEntry s =
     invalidateAccountCache (s\<lparr>journal_entries := newEntry # journal_entries s\<rparr>)"

text \<open>\<^verbatim>\<open>getNetCashFlow\<close> of \<^verbatim>\<open>utils/cashFlowUtils.js\<close>: deposits count positive, every other type negative.\<close>

definition getNetCashFlow :: "cash_tx list \<Rightarrow> real" where
  "getNetCashFlow transactions =
     (if length transactions = 0 then 0
      else foldl (\<lambda>sum txn. sum + (if tx_type txn = ''deposit'' then tx_amount txn else - tx_amount txn))
             0 transactions)"

section \<open>Properties of the statistics\<close>

lemma foldl_add_sum_list:
  "foldl (\<lambda>sum t. sum + f t) a xs = a + sum_list (map f xs)" for a :: real
  by (induction xs arbitrary: a) simp_all

lemma metricsLoop_eq:
  "metricsLoop ts (w, l, tw, tlo) =
     (w @ filter (\<lambda>t. getTradeRealizedPnL t > 0) ts,
      l @ filter (\<lambda>t. getTradeRealizedPnL t \<le> 0) ts,
      tw + sum_list (map getTradeRealizedPnL (filter (\<lambda>t. getTradeRealizedPnL t > 0) ts)),
      tlo + sum_list (map getTradeRealizedPnL (filter (\<lambda>t. getTradeRealizedPnL t \<le> 0) ts)))"
  by (induction ts arbitrary: w l tw tlo) (simp_all add: Let_def not_less)

lemma getClosedTradeMetrics_eq:
  "getClosedTradeMetrics trades =
     (let c = filter (\<lambda>e. status e = ''closed'' \<or> status e = ''trimmed'') trades;
          w = filter (\<lambda>t. getTradeRealizedPnL t > 0) c;
          l = filter (\<lambda>t. getTradeRealizedPnL t \<le> 0) c
      in \<lparr>m_closedTrades = c, m_wins = w, m_losses = l,
          m_totalWins = sum_list (map getTradeRealizedPnL w),
          m_totalLosses = sum_list (map getTradeRealizedPnL l),
          m_winRate = (if c = [] then None else Some ((real (length w) / real (length c)) * 100)),
          m_winsCount = length w, m_lossesCount = length l\<rparr>)"
proof (cases "filter (\<lambda>e. status e = ''closed'' \<or> status e = ''trimmed'') trades = []")
  case True
  then show ?thesis by (simp add: getClosedTradeMetrics_def Let_def del: filter_filter)
next
  case False
  then show ?thesis
    by (simp add: getClosedTradeMetrics_def metricsLoop_eq Let_def del: filter_filter)
qed

lemma sum_list_nonpos_eq_neg:
  "sum_list (map f (filter (\<lambda>t. f t \<le> 0) xs)) = sum_list (map f (filter (\<lambda>t. f t < 0) xs))"
  for f :: "'a \<Rightarrow> real"
  by (induction xs) auto

lemma length_nonpos_split:
  "length (filter (\<lambda>t. f t \<le> 0) xs) =
     length (filter (\<lambda>t. f t < 0) xs) + length (filter (\<lambda>t. f t = 0) xs)"
  for f :: "'a \<Rightarrow> real"
  by (induction xs) auto

lemma length_pos_nonpos:
  "length (filter (\<lambda>t. f t > 0) xs) + length (filter (\<lambda>t. f t \<le> 0) xs) = length xs"
  for f :: "'a \<Rightarrow> real"
  by (induction xs) auto

lemma sum_list_pos_filter: "xs \<noteq> [] \<Longrightarrow> (\<forall>x\<in>set xs. f x > 0) \<Longrightarrow> sum_list (map f xs) > 0"
  for f :: "'a \<Rightarrow> real"
proof (induction xs)
  case Nil
  then show ?case by simp
next
  case (Cons a xs)
  show ?case
  proof (cases "xs = []")
    case True
    with Cons.prems show ?thesis by simp
  next
    case False
    with Cons have "0 < sum_list (map f xs)" "0 < f a" by auto
    then show ?thesis by simp
  qed
qed

lemma sum_list_neg_filter: "xs \<noteq> [] \<Longrightarrow> (\<forall>x\<in>set xs. f x < 0) \<Longrightarrow> sum_list (map f xs) < 0"
  for f :: "'a \<Rightarrow> real"
proof -
  assume a: "xs \<noteq> []" "\<forall>x\<in>set xs. f x < 0"
  have "sum_list (map (\<lambda>x. - f x) xs) = - sum_list (map f xs)"
    by (induction xs) simp_all
  moreover have "0 < sum_list (map (\<lambda>x. - f x) xs)"
    using a by (intro sum_list_pos_filter) auto
  ultimately show ?thesis by simp
qed

lemma calculateWinRate_spec: "calculateWinRate trades = spec_winRate trades"
  by (simp add: calculateWinRate_def spec_winRate_def closedOrTrimmed_def Let_def del: filter_filter)

lemma calculateWinRate2_spec: "calculateWinRate2 trades = spec_winRate trades"
  by (simp add: calculateWinRate2_def getClosedTradeMetrics_eq spec_winRate_def closedOrTrimmed_def
      Let_def del: filter_filter)

lemma calculateWinsLosses2_eq: "calculateWinsLosses2 trades = calculateWinsLosses trades"
  by (simp add: calculateWinsLosses2_def calculateWinsLosses_def getClosedTradeMetrics_eq Let_def
      del: filter_filter)

lemma calculateTradeExpectancy_spec: "calculateTradeExpectancy trades = spec_tradeExpectancy trades"
  by (simp add: calculateTradeExpectancy_def spec_tradeExpectancy_def closedOrTrimmed_def average_def
      foldl_add_sum_list Let_def del: filter_filter)

lemma filter_nonpos_Nil_neg_Nil:
  fixes f :: "'a \<Rightarrow> real"
  shows "filter (\<lambda>t. f t \<le> 0) c = [] \<Longrightarrow> filter (\<lambda>t. f t < 0) c = []"
  by (auto simp: filter_empty_conv)

lemma calculateTradeExpectancy2_eq:
  "calculateTradeExpectancy2 trades = calculateTradeExpectancy trades"
proof -
  define c where "c = filter (\<lambda>e. status e = ''closed'' \<or> status e = ''trimmed'') trades"
  have s: "sum_list (map getTradeRealizedPnL (filter (\<lambda>t. getTradeRealizedPnL t \<le> 0) c))
         = sum_list (map getTradeRealizedPnL (filter (\<lambda>t. getTradeRealizedPnL t < 0) c))"
    by (rule sum_list_nonpos_eq_neg)
  have e: "filter (\<lambda>t. getTradeRealizedPnL t \<le> 0) c = []
      \<Longrightarrow> filter (\<lambda>t. getTradeRealizedPnL t < 0) c = []"
    by (rule filter_nonpos_Nil_neg_Nil)
  have "calculateTradeExpectancy2 trades =
      (if c = [] then None else
       Some (sum_list (map getTradeRealizedPnL (filter (\<lambda>t. getTradeRealizedPnL t > 0) c)) / real (length c)
           + sum_list (map getTradeRealizedPnL (filter (\<lambda>t. getTradeRealizedPnL t < 0) c)) / real (length c)))"
    using e by (auto simp add: calculateTradeExpectancy2_def getClosedTradeMetrics_eq
        c_def[symmetric] s Let_def simp del: filter_filter)
  moreover have "calculateTradeExpectancy trades =
      (if c = [] then None else
       Some (sum_list (map getTradeRealizedPnL (filter (\<lambda>t. getTradeRealizedPnL t > 0) c)) / real (length c)
           + sum_list (map getTradeRealizedPnL (filter (\<lambda>t. getTradeRealizedPnL t < 0) c)) / real (length c)))"
    by (auto simp add: calculateTradeExpectancy_def foldl_add_sum_list
        c_def[symmetric] Let_def simp del: filter_filter)
  ultimately show ?thesis by simp
qed

lemma avgWinLossRatio_form:
  fixes trades
  defines "c \<equiv> filter (\<lambda>e. status e = ''closed'' \<or> status e = ''trimmed'') trades"
  defines "W \<equiv> filter (\<lambda>t. getTradeRealizedPnL t > 0) c"
  defines "L \<equiv> filter (\<lambda>t. getTradeRealizedPnL t < 0) c"
  shows "calculateAvgWinLossRatio trades =
     (if W = [] \<or> L = [] then None
      else Some ((sum_list (map getTradeRealizedPnL W) / real (length W)) /
                 (\<bar>sum_list (map getTradeRealizedPnL L)\<bar> / real (length L))))"
proof -
  have neg: "L \<noteq> [] \<Longrightarrow> sum_list (map getTradeRealizedPnL L) < 0"
    unfolding L_def by (rule sum_list_neg_filter) auto
  have cne: "W \<noteq> [] \<Longrightarrow> c \<noteq> []" unfolding W_def by auto
  show ?thesis
    using neg cne
    by (auto simp add: calculateAvgWinLossRatio_def foldl_add_sum_list Let_def
        c_def[symmetric] W_def[symmetric] L_def[symmetric] simp del: filter_filter)
qed

lemma avgWinLossRatio2_form:
  fixes trades
  defines "c \<equiv> filter (\<lambda>e. status e = ''closed'' \<or> status e = ''trimmed'') trades"
  defines "W \<equiv> filter (\<lambda>t. getTradeRealizedPnL t > 0) c"
  defines "L \<equiv> filter (\<lambda>t. getTradeRealizedPnL t < 0) c"
  defines "B \<equiv> filter (\<lambda>t. getTradeRealizedPnL t = 0) c"
  shows "calculateAvgWinLossRatio2 trades =
     (if W = [] \<or> L = [] then None
      else Some ((sum_list (map getTradeRealizedPnL W) / real (length W)) /
                 (\<bar>sum_list (map getTradeRealizedPnL L)\<bar> / real (length L + length B))))"
proof -
  define L' where "L' = filter (\<lambda>t. getTradeRealizedPnL t \<le> 0) c"
  have neg: "L \<noteq> [] \<Longrightarrow> sum_list (map getTradeRealizedPnL L) < 0"
    unfolding L_def by (rule sum_list_neg_filter) auto
  have s: "sum_list (map getTradeRealizedPnL L') = sum_list (map getTradeRealizedPnL L)"
    unfolding L'_def L_def by (rule sum_list_nonpos_eq_neg)
  have len: "length L' = length L + length B"
    unfolding L'_def L_def B_def by (rule length_nonpos_split)
  have e: "L = [] \<Longrightarrow> sum_list (map getTradeRealizedPnL L) = 0" by simp
  have "calculateAvgWinLossRatio2 trades =
      (if W = [] \<or> L' = [] then None
       else if \<bar>sum_list (map getTradeRealizedPnL L') / real (length L')\<bar> = 0 then None
       else Some ((sum_list (map getTradeRealizedPnL W) / real (length W)) /
                  \<bar>sum_list (map getTradeRealizedPnL L') / real (length L')\<bar>))"
    by (simp add: calculateAvgWinLossRatio2_def getClosedTradeMetrics_eq Let_def
        c_def[symmetric] W_def[symmetric] L'_def[symmetric] del: filter_filter)
  also have "\<dots> = (if W = [] \<or> L = [] then None
      else Some ((sum_list (map getTradeRealizedPnL W) / real (length W)) /
                 (\<bar>sum_list (map getTradeRealizedPnL L)\<bar> / real (length L + length B))))"
  proof (cases "L = []")
    case True
    then show ?thesis using e by (simp add: s)
  next
    case False
    then have "L' \<noteq> []" using len by auto
    moreover have "sum_list (map getTradeRealizedPnL L) \<noteq> 0" using neg[OF False] by simp
    moreover have "real (length L) + real (length B) \<noteq> 0"
      using False by (simp add: add_nonneg_eq_0_iff)
    ultimately show ?thesis using False by (simp add: s len)
  qed
  finally show ?thesis .
qed

lemma avgWinLossRatio_versions_iff:
  fixes trades
  defines "c \<equiv> filter (\<lambda>e. status e = ''closed'' \<or> status e = ''trimmed'') trades"
  shows "calculateAvgWinLossRatio2 trades = calculateAvgWinLossRatio trades \<longleftrightarrow>
     filter (\<lambda>t. getTradeRealizedPnL t > 0) c = [] \<or>
     filter (\<lambda>t. getTradeRealizedPnL t < 0) c = [] \<or>
     filter (\<lambda>t. getTradeRealizedPnL t = 0) c = []"
proof -
  define W where "W = filter (\<lambda>t. getTradeRealizedPnL t > 0) c"
  define L where "L = filter (\<lambda>t. getTradeRealizedPnL t < 0) c"
  define B where "B = filter (\<lambda>t. getTradeRealizedPnL t = 0) c"
  have f1: "calculateAvgWinLossRatio trades =
     (if W = [] \<or> L = [] then None
      else Some ((sum_list (map getTradeRealizedPnL W) / real (length W)) /
                 (\<bar>sum_list (map getTradeRealizedPnL L)\<bar> / real (length L))))"
    unfolding W_def L_def c_def by (rule avgWinLossRatio_form)
  have f2: "calculateAvgWinLossRatio2 trades =
     (if W = [] \<or> L = [] then None
      else Some ((sum_list (map getTradeRealizedPnL W) / real (length W)) /
                 (\<bar>sum_list (map getTradeRealizedPnL L)\<bar> / real (length L + length B))))"
    unfolding W_def L_def B_def c_def by (rule avgWinLossRatio2_form)
  have neg: "L \<noteq> [] \<Longrightarrow> sum_list (map getTradeRealizedPnL L) < 0"
    unfolding L_def by (rule sum_list_neg_filter) auto
  have pos: "W \<noteq> [] \<Longrightarrow> sum_list (map getTradeRealizedPnL W) > 0"
    unfolding W_def by (rule sum_list_pos_filter) auto
  show ?thesis
  proof (cases "W = [] \<or> L = []")
    case True
    then show ?thesis unfolding f1 f2 W_def[symmetric] L_def[symmetric] B_def[symmetric] by auto
  next
    case False
    then have w: "W \<noteq> []" and l: "L \<noteq> []" by auto
    define a where "a = sum_list (map getTradeRealizedPnL W) / real (length W)"
    define s where "s = \<bar>sum_list (map getTradeRealizedPnL L)\<bar>"
    have a: "a > 0" unfolding a_def using pos[OF w] w by simp
    have s: "s > 0" unfolding s_def using neg[OF l] by simp
    have n: "real (length L) > 0" using l by simp
    have "(a / (s / real (length L + length B)) = a / (s / real (length L))) \<longleftrightarrow> B = []"
    proof
      assume "a / (s / real (length L + length B)) = a / (s / real (length L))"
      then have "a * real (length L + length B) / s = a * real (length L) / s" by simp
      then have "a * real (length L + length B) = a * real (length L)" using s by simp
      then have "real (length L + length B) = real (length L)" using a by simp
      then show "B = []" by simp
    next
      assume "B = []" then show "a / (s / real (length L + length B)) = a / (s / real (length L))"
        by simp
    qed
    then show ?thesis
      unfolding f1 f2 W_def[symmetric] L_def[symmetric] B_def[symmetric] a_def s_def
      using False by simp
  qed
qed

lemma closedOrTrimmed_append:
  "closedOrTrimmed (xs @ ys) = closedOrTrimmed xs @ closedOrTrimmed ys"
  by (simp add: closedOrTrimmed_def)

lemma calculateWinsLosses_spec:
  "calculateWinsLosses trades =
     \<lparr>wl_wins = length (filter (\<lambda>t. getTradeRealizedPnL t > 0) (closedOrTrimmed trades)),
      wl_losses = length (filter (\<lambda>t. getTradeRealizedPnL t \<le> 0) (closedOrTrimmed trades)),
      wl_total = length (closedOrTrimmed trades)\<rparr>"
  by (simp add: calculateWinsLosses_def closedOrTrimmed_def Let_def del: filter_filter)

lemma calculateProfitFactor2_form:
  "calculateProfitFactor2 trades =
     (if filter (\<lambda>t. getTradeRealizedPnL t > 0) (closedOrTrimmed trades) = [] \<or>
         sum_list (map getTradeRealizedPnL
           (filter (\<lambda>t. getTradeRealizedPnL t \<le> 0) (closedOrTrimmed trades))) = 0
      then None
      else Some (sum_list (map getTradeRealizedPnL
                   (filter (\<lambda>t. getTradeRealizedPnL t > 0) (closedOrTrimmed trades)))
               / \<bar>sum_list (map getTradeRealizedPnL
                   (filter (\<lambda>t. getTradeRealizedPnL t \<le> 0) (closedOrTrimmed trades)))\<bar>))"
  by (auto simp add: calculateProfitFactor2_def getClosedTradeMetrics_eq closedOrTrimmed_def Let_def
      simp del: filter_filter)

text \<open>
  Claim C5.  For every trade list, both versions of \<^verbatim>\<open>calculateWinRate\<close> return null
  when the list has no closed or trimmed trade (so for the empty list and for a list of
  open trades only), and otherwise 100 times the number of closed or trimmed trades with a
  realized P\&L strictly above 0, divided by the number of closed or trimmed trades.  A
  breakeven trade adds one to the divisor and nothing to the count of wins.
\<close>
theorem winRate_null_or_strict_win_percentage:
  "calculateWinRate trades = spec_winRate trades \<and>
   calculateWinRate2 trades = spec_winRate trades \<and>
   ((\<forall>t \<in> set trades. status t \<noteq> ''closed'' \<and> status t \<noteq> ''trimmed'') \<longrightarrow>
      calculateWinRate trades = None \<and> calculateWinRate2 trades = None) \<and>
   ((status b = ''closed'' \<or> status b = ''trimmed'') \<and> getTradeRealizedPnL b = 0 \<longrightarrow>
      calculateWinRate (b # trades) =
        Some (100 * real (length (filter (\<lambda>t. getTradeRealizedPnL t > 0) (closedOrTrimmed trades)))
              / real (length (closedOrTrimmed trades) + 1)))"
proof -
  have "(\<forall>t \<in> set trades. status t \<noteq> ''closed'' \<and> status t \<noteq> ''trimmed'') \<Longrightarrow>
      closedOrTrimmed trades = []"
    by (auto simp: closedOrTrimmed_def filter_empty_conv)
  then have "(\<forall>t \<in> set trades. status t \<noteq> ''closed'' \<and> status t \<noteq> ''trimmed'') \<Longrightarrow>
      spec_winRate trades = None"
    by (simp add: spec_winRate_def)
  moreover have "(status b = ''closed'' \<or> status b = ''trimmed'') \<and> getTradeRealizedPnL b = 0 \<Longrightarrow>
      spec_winRate (b # trades) =
        Some (100 * real (length (filter (\<lambda>t. getTradeRealizedPnL t > 0) (closedOrTrimmed trades)))
              / real (length (closedOrTrimmed trades) + 1))"
    by (auto simp add: spec_winRate_def closedOrTrimmed_def)
  ultimately show ?thesis
    by (simp only: calculateWinRate_spec calculateWinRate2_spec) blast
qed

theorem winRate_null_or_strict_win_percentage_witness:
  "calculateWinRate [mkTrade 1 ''closed'' 10, mkTrade 2 ''closed'' 0, mkTrade 3 ''open'' 7] = Some 50 \<and>
   calculateWinRate2 [mkTrade 1 ''closed'' 10, mkTrade 2 ''closed'' 0, mkTrade 3 ''open'' 7] = Some 50 \<and>
   calculateWinRate [mkTrade 3 ''open'' 7] = None \<and>
   calculateWinRate2 [mkTrade 3 ''open'' 7] = None \<and>
   calculateWinRate [] = None \<and>
   calculateWinRate [mkTrade 2 ''closed'' 0, mkTrade 1 ''closed'' 10] = Some 50"
  using winRate_null_or_strict_win_percentage
          [of "[mkTrade 1 ''closed'' 10, mkTrade 2 ''closed'' 0, mkTrade 3 ''open'' 7]" "mkTrade 2 ''closed'' 0"]
        winRate_null_or_strict_win_percentage [of "[mkTrade 3 ''open'' 7]" "mkTrade 2 ''closed'' 0"]
        winRate_null_or_strict_win_percentage [of "[]" "mkTrade 2 ''closed'' 0"]
        winRate_null_or_strict_win_percentage [of "[mkTrade 1 ''closed'' 10]" "mkTrade 2 ''closed'' 0"]
  by (simp add: spec_winRate_def closedOrTrimmed_def mkTrade_def getTradeRealizedPnL_def)

text \<open>
  Claim C6.  For every trade list, \<^verbatim>\<open>calculateWinsLosses\<close> (in both versions) counts
  the closed or trimmed trades with realized P\&L above 0 as wins and those with realized
  P\&L at most 0 as losses, the two counts adding up to the total.  A breakeven trade put
  anywhere into a list raises the losses by one and leaves the wins alone; the numerator of
  the profit factor, the running total of the wins, is the sum over the trades with P\&L
  above 0, so the breakeven trade adds nothing to it, and the profit factor is unchanged.
\<close>
theorem winsLosses_partition_breakeven_is_loss:
  "calculateWinsLosses trades =
     \<lparr>wl_wins = length (filter (\<lambda>t. getTradeRealizedPnL t > 0) (closedOrTrimmed trades)),
      wl_losses = length (filter (\<lambda>t. getTradeRealizedPnL t \<le> 0) (closedOrTrimmed trades)),
      wl_total = length (closedOrTrimmed trades)\<rparr> \<and>
   calculateWinsLosses2 trades = calculateWinsLosses trades \<and>
   wl_wins (calculateWinsLosses trades) + wl_losses (calculateWinsLosses trades)
     = wl_total (calculateWinsLosses trades) \<and>
   m_totalWins (getClosedTradeMetrics trades) =
     sum_list (map getTradeRealizedPnL
       (filter (\<lambda>t. getTradeRealizedPnL t > 0) (closedOrTrimmed trades))) \<and>
   ((status b = ''closed'' \<or> status b = ''trimmed'') \<and> getTradeRealizedPnL b = 0 \<longrightarrow>
      wl_wins (calculateWinsLosses (xs @ b # ys)) = wl_wins (calculateWinsLosses (xs @ ys)) \<and>
      wl_losses (calculateWinsLosses (xs @ b # ys)) = wl_losses (calculateWinsLosses (xs @ ys)) + 1 \<and>
      m_totalWins (getClosedTradeMetrics (xs @ b # ys)) = m_totalWins (getClosedTradeMetrics (xs @ ys)) \<and>
      calculateProfitFactor2 (xs @ b # ys) = calculateProfitFactor2 (xs @ ys))"
proof -
  have p: "wl_wins (calculateWinsLosses trades) + wl_losses (calculateWinsLosses trades)
     = wl_total (calculateWinsLosses trades)"
    by (simp add: calculateWinsLosses_spec length_pos_nonpos)
  have m: "m_totalWins (getClosedTradeMetrics ts) =
     sum_list (map getTradeRealizedPnL
       (filter (\<lambda>t. getTradeRealizedPnL t > 0) (closedOrTrimmed ts)))" for ts
    by (simp add: getClosedTradeMetrics_eq closedOrTrimmed_def Let_def del: filter_filter)
  have b: "wl_wins (calculateWinsLosses (xs @ b # ys)) = wl_wins (calculateWinsLosses (xs @ ys)) \<and>
      wl_losses (calculateWinsLosses (xs @ b # ys)) = wl_losses (calculateWinsLosses (xs @ ys)) + 1 \<and>
      m_totalWins (getClosedTradeMetrics (xs @ b # ys)) = m_totalWins (getClosedTradeMetrics (xs @ ys)) \<and>
      calculateProfitFactor2 (xs @ b # ys) = calculateProfitFactor2 (xs @ ys)"
    if "(status b = ''closed'' \<or> status b = ''trimmed'') \<and> getTradeRealizedPnL b = 0"
  proof -
    have c: "closedOrTrimmed (xs @ b # ys) = closedOrTrimmed xs @ b # closedOrTrimmed ys"
      using that by (auto simp add: closedOrTrimmed_def)
    have c': "closedOrTrimmed (xs @ ys) = closedOrTrimmed xs @ closedOrTrimmed ys"
      by (rule closedOrTrimmed_append)
    show ?thesis
      using that by (simp add: calculateWinsLosses_spec m calculateProfitFactor2_form c c')
  qed
  show ?thesis
    using p m[of trades] b calculateWinsLosses_spec[of trades] calculateWinsLosses2_eq[of trades]
    by blast
qed

theorem winsLosses_partition_breakeven_is_loss_witness:
  "calculateWinsLosses [mkTrade 1 ''closed'' 10, mkTrade 2 ''closed'' 0, mkTrade 3 ''trimmed'' 0]
     = \<lparr>wl_wins = 1, wl_losses = 2, wl_total = 3\<rparr> \<and>
   calculateProfitFactor2 [mkTrade 1 ''closed'' 10, mkTrade 2 ''closed'' 0, mkTrade 4 ''closed'' (-5)]
     = calculateProfitFactor2 [mkTrade 1 ''closed'' 10, mkTrade 4 ''closed'' (-5)] \<and>
   calculateProfitFactor2 [mkTrade 1 ''closed'' 10, mkTrade 4 ''closed'' (-5)] = Some 2"
proof -
  have h: "(status (mkTrade 2 ''closed'' 0) = ''closed'' \<or> status (mkTrade 2 ''closed'' 0) = ''trimmed'')
      \<and> getTradeRealizedPnL (mkTrade 2 ''closed'' 0) = 0"
    by (simp add: mkTrade_def getTradeRealizedPnL_def)
  have "calculateProfitFactor2 [mkTrade 1 ''closed'' 10, mkTrade 4 ''closed'' (-5)] = Some 2"
    by (simp add: calculateProfitFactor2_def getClosedTradeMetrics_def Let_def mkTrade_def
        getTradeRealizedPnL_def)
  then show ?thesis
    using h winsLosses_partition_breakeven_is_loss
        [of "[mkTrade 1 ''closed'' 10, mkTrade 2 ''closed'' 0, mkTrade 3 ''trimmed'' 0]"
            "mkTrade 2 ''closed'' 0" "[mkTrade 1 ''closed'' 10]" "[mkTrade 4 ''closed'' (-5)]"]
    by (simp add: closedOrTrimmed_def mkTrade_def getTradeRealizedPnL_def)
qed

text \<open>
  Claim C7.  For every trade list, \<^verbatim>\<open>calculateTradeExpectancy\<close> (in both versions)
  returns null when there is no closed or trimmed trade, and otherwise the win fraction
  times the average winning P\&L plus the loss fraction times the average losing P\&L,
  the wins being the closed or trimmed trades with realized P\&L above 0 and the average
  loss being a negative number.
\<close>
theorem tradeExpectancy_is_signed_expected_value:
  "calculateTradeExpectancy trades = spec_tradeExpectancy trades \<and>
   calculateTradeExpectancy2 trades = spec_tradeExpectancy trades \<and>
   (closedOrTrimmed trades = [] \<longrightarrow> calculateTradeExpectancy trades = None)"
  by (simp add: calculateTradeExpectancy2_eq calculateTradeExpectancy_spec spec_tradeExpectancy_def)

theorem tradeExpectancy_is_signed_expected_value_witness:
  "calculateTradeExpectancy [mkTrade 1 ''closed'' 30, mkTrade 2 ''closed'' (-10), mkTrade 3 ''closed'' 0,
      mkTrade 4 ''open'' 99] = Some (20 / 3) \<and>
   calculateTradeExpectancy2 [mkTrade 1 ''closed'' 30, mkTrade 2 ''closed'' (-10), mkTrade 3 ''closed'' 0,
      mkTrade 4 ''open'' 99] = Some (20 / 3) \<and>
   calculateTradeExpectancy [mkTrade 4 ''open'' 99] = None"
  using tradeExpectancy_is_signed_expected_value
      [of "[mkTrade 1 ''closed'' 30, mkTrade 2 ''closed'' (-10), mkTrade 3 ''closed'' 0, mkTrade 4 ''open'' 99]"]
    tradeExpectancy_is_signed_expected_value [of "[mkTrade 4 ''open'' 99]"]
  by (simp add: spec_tradeExpectancy_def closedOrTrimmed_def average_def mkTrade_def
      getTradeRealizedPnL_def)

text \<open>
  Claim C10.  The claim that the straight-line and the refactored calculator agree on
  every list also for \<^verbatim>\<open>calculateAvgWinLossRatio\<close> fails: with one winner of 10, one
  loser of -10 and one breakeven trade, the first averages the loss over the one loser and
  returns 1, the second averages it over the loser and the breakeven trade and returns 2.
\<close>
theorem avgWinLossRatio_versions_differ_on_breakeven:
  "calculateAvgWinLossRatio
      [mkTrade 1 ''closed'' 10, mkTrade 2 ''closed'' (-10), mkTrade 3 ''closed'' 0] = Some 1 \<and>
   calculateAvgWinLossRatio2
      [mkTrade 1 ''closed'' 10, mkTrade 2 ''closed'' (-10), mkTrade 3 ''closed'' 0] = Some 2"
  by (simp add: calculateAvgWinLossRatio_def calculateAvgWinLossRatio2_def getClosedTradeMetrics_def
      Let_def mkTrade_def getTradeRealizedPnL_def)

lemma metrics_without_breakeven:
  assumes "filter (\<lambda>t. getTradeRealizedPnL t = 0) (closedOrTrimmed trades) = []"
  shows "m_losses (getClosedTradeMetrics trades)
           = filter (\<lambda>t. getTradeRealizedPnL t < 0) (closedOrTrimmed trades)"
proof -
  have "\<forall>t \<in> set (closedOrTrimmed trades). getTradeRealizedPnL t \<noteq> 0"
    using assms by (simp add: filter_empty_conv)
  then have "filter (\<lambda>t. getTradeRealizedPnL t \<le> 0) (closedOrTrimmed trades)
      = filter (\<lambda>t. getTradeRealizedPnL t < 0) (closedOrTrimmed trades)"
    by (intro filter_cong) auto
  then show ?thesis
    by (simp add: getClosedTradeMetrics_eq closedOrTrimmed_def Let_def del: filter_filter)
qed

text \<open>
  Claim C10 as amended.  On every trade list the two versions return equal results for
  the win rate and for the wins and losses.  On every trade list without a breakeven
  closed or trimmed trade the refactored version's list of losses is the list of trades
  with P\&L below 0 that the straight-line version filters, and the two return equal
  results for the average win/loss ratio and for the trade expectancy as well.  The
  average win/loss ratio is null in both versions when there is no winner or no trade with
  P\&L below 0.  Nothing is stated for the expectancy on lists with breakeven trades,
  where the two versions run different sequences of operations.
\<close>

theorem stats_versions_agree_without_breakeven:
  "calculateWinRate2 trades = calculateWinRate trades \<and>
   calculateWinsLosses2 trades = calculateWinsLosses trades \<and>
   m_wins (getClosedTradeMetrics trades)
     = filter (\<lambda>t. getTradeRealizedPnL t > 0) (closedOrTrimmed trades) \<and>
   (filter (\<lambda>t. getTradeRealizedPnL t = 0) (closedOrTrimmed trades) = [] \<longrightarrow>
      m_losses (getClosedTradeMetrics trades)
        = filter (\<lambda>t. getTradeRealizedPnL t < 0) (closedOrTrimmed trades) \<and>
      calculateAvgWinLossRatio2 trades = calculateAvgWinLossRatio trades \<and>
      calculateTradeExpectancy2 trades = calculateTradeExpectancy trades) \<and>
   (filter (\<lambda>t. getTradeRealizedPnL t > 0) (closedOrTrimmed trades) = [] \<or>
    filter (\<lambda>t. getTradeRealizedPnL t < 0) (closedOrTrimmed trades) = [] \<longrightarrow>
      calculateAvgWinLossRatio2 trades = None \<and> calculateAvgWinLossRatio trades = None)"
proof -
  have w: "m_wins (getClosedTradeMetrics trades)
     = filter (\<lambda>t. getTradeRealizedPnL t > 0) (closedOrTrimmed trades)"
    by (simp add: getClosedTradeMetrics_eq closedOrTrimmed_def Let_def del: filter_filter)
  have r: "calculateAvgWinLossRatio2 trades = calculateAvgWinLossRatio trades"
    if "filter (\<lambda>t. getTradeRealizedPnL t = 0) (closedOrTrimmed trades) = []"
    using that avgWinLossRatio_versions_iff[of trades] by (simp add: closedOrTrimmed_def)
  have n: "calculateAvgWinLossRatio2 trades = None \<and> calculateAvgWinLossRatio trades = None"
    if "filter (\<lambda>t. getTradeRealizedPnL t > 0) (closedOrTrimmed trades) = [] \<or>
        filter (\<lambda>t. getTradeRealizedPnL t < 0) (closedOrTrimmed trades) = []"
    using that avgWinLossRatio_form[of trades] avgWinLossRatio2_form[of trades]
    by (auto simp add: closedOrTrimmed_def)
  show ?thesis
    using w r n metrics_without_breakeven[of trades]
    by (simp add: calculateWinRate_spec calculateWinRate2_spec calculateWinsLosses2_eq
        calculateTradeExpectancy2_eq)
qed

theorem stats_versions_agree_without_breakeven_witness:
  "calculateAvgWinLossRatio2 [mkTrade 1 ''closed'' 10, mkTrade 2 ''closed'' (-5)]
     = calculateAvgWinLossRatio [mkTrade 1 ''closed'' 10, mkTrade 2 ''closed'' (-5)] \<and>
   calculateTradeExpectancy2 [mkTrade 1 ''closed'' 10, mkTrade 2 ''closed'' (-5)]
     = calculateTradeExpectancy [mkTrade 1 ''closed'' 10, mkTrade 2 ''closed'' (-5)] \<and>
   calculateAvgWinLossRatio [mkTrade 1 ''closed'' 10, mkTrade 2 ''closed'' (-5)] = Some 2 \<and>
   calculateAvgWinLossRatio2 [mkTrade 1 ''closed'' 10, mkTrade 3 ''closed'' 0] = None"
proof -
  have "calculateAvgWinLossRatio [mkTrade 1 ''closed'' 10, mkTrade 2 ''closed'' (-5)] = Some 2"
    by (simp add: calculateAvgWinLossRatio_def Let_def mkTrade_def getTradeRealizedPnL_def)
  then show ?thesis
    using stats_versions_agree_without_breakeven
        [of "[mkTrade 1 ''closed'' 10, mkTrade 2 ''closed'' (-5)]"]
      stats_versions_agree_without_breakeven
        [of "[mkTrade 1 ''closed'' 10, mkTrade 3 ''closed'' 0]"]
    by (simp add: closedOrTrimmed_def mkTrade_def getTradeRealizedPnL_def)
qed

section \<open>Properties of the end-of-day cache accessors\<close>

text \<open>
  Claim C2.  For every date string other than today's, if the cache holds a snapshot for
  that date that is marked incomplete, \<^verbatim>\<open>getBalanceForDate\<close> returns null, so it never
  returns the balance stored in the incomplete snapshot.
\<close>

theorem incomplete_snapshot_never_returned:
  assumes "dateStr \<noteq> todayStr"
    and "getEODData cache dateStr = Some snap"
    and "incomplete snap"
  shows "getBalanceForDate todayStr currentAccount cache dateStr = None \<and>
         getBalanceForDate todayStr currentAccount cache dateStr \<noteq> Some (balance snap)"
  using assms by (simp add: getBalanceForDate_def)

theorem incomplete_snapshot_never_returned_witness:
  "getBalanceForDate ''2026-01-06'' 10500
     (Map.empty(''2026-01-05'' \<mapsto> \<lparr>balance = 10250, cashFlow = Some 0, incomplete = True\<rparr>))
     ''2026-01-05'' = None"
proof -
  have "getEODData (Map.empty(''2026-01-05'' \<mapsto> \<lparr>balance = 10250, cashFlow = Some 0, incomplete = True\<rparr>))
      ''2026-01-05'' = Some \<lparr>balance = 10250, cashFlow = Some 0, incomplete = True\<rparr>"
    by (simp add: getEODData_def)
  from incomplete_snapshot_never_returned [OF _ this, of "''2026-01-06''" 10500]
  show ?thesis by simp
qed

section \<open>The refresh cycle commits a day at most once\<close>

lemma hasEODData_commit:
  "hasEODData (snapshots (commitSnapshot store d s)) d' \<longleftrightarrow> d' = d \<or> hasEODData (snapshots store) d'"
  by (simp add: hasEODData_def commitSnapshot_def storeEODSnapshot_def)

lemma saveLog_commit: "saveLog (commitSnapshot store d s) = saveLog store @ [d]"
  by (simp add: commitSnapshot_def)

lemma saveEODSnapshot_commits:
  "\<exists>s. saveEODSnapshot env d store = commitSnapshot store d s"
  by (cases "computedSnapshot env") (auto simp add: saveEODSnapshot_def)

lemma refreshPrices_cases:
  "(isAfterMarketClose env \<and> \<not> hasEODData (snapshots store) (tradingDay env) \<and>
      tradingDay env = currentWeekday env \<and> activeTrades env \<noteq> 0 \<and> pricesFetched env \<and>
      saveLog (refreshPrices env store) = saveLog store @ [tradingDay env] \<and>
      (\<forall>d. hasEODData (snapshots (refreshPrices env store)) d \<longleftrightarrow>
           d = tradingDay env \<or> hasEODData (snapshots store) d))
   \<or> refreshPrices env store = store"
proof (cases "activeTrades env \<noteq> 0 \<and> pricesFetched env \<and> isAfterMarketClose env \<and>
    \<not> hasEODData (snapshots store) (tradingDay env) \<and> tradingDay env = currentWeekday env")
  case True
  obtain s where s: "saveEODSnapshot env (tradingDay env) store = commitSnapshot store (tradingDay env) s"
    using saveEODSnapshot_commits by blast
  have "refreshPrices env store = commitSnapshot store (tradingDay env) s"
    using True s by (auto simp add: refreshPrices_def checkAndSaveEOD_def Let_def)
  then show ?thesis using True by (auto simp add: hasEODData_commit saveLog_commit)
next
  case False
  then have "refreshPrices env store = store"
    by (auto simp add: refreshPrices_def checkAndSaveEOD_def Let_def)
  then show ?thesis by simp
qed

lemma refreshPrices_logConsistent:
  assumes "logConsistent store"
  shows "logConsistent (refreshPrices env store)"
  using refreshPrices_cases[of env store] assms
  by (auto simp add: logConsistent_def list_all_iff)

lemma refreshCycles_logConsistent:
  "logConsistent store \<Longrightarrow> logConsistent (refreshCycles envs store)"
  by (induction envs arbitrary: store) (simp_all add: refreshPrices_logConsistent)

text \<open>
  Claim C8.  In a run of the price-refresh cycle a snapshot is committed only when the
  market is after close, no snapshot is stored yet for the trading day, and the trading
  day equals the formatted current weekday; the committed day is then the trading day.
  If one of the three conditions fails (in particular on a weekend or holiday, which the
  code detects by the trading day differing from the current weekday) the store is left as
  it is.  Over any sequence of cycles, starting from a store whose log is free of
  duplicates and names stored days only, no day is committed twice.
\<close>

theorem eod_commit_once_per_trading_day:
  "(saveLog (refreshPrices env store) \<noteq> saveLog store \<longrightarrow>
      isAfterMarketClose env \<and> \<not> hasEODData (snapshots store) (tradingDay env) \<and>
      tradingDay env = currentWeekday env \<and>
      saveLog (refreshPrices env store) = saveLog store @ [tradingDay env]) \<and>
   (tradingDay env \<noteq> currentWeekday env \<longrightarrow> refreshPrices env store = store) \<and>
   (hasEODData (snapshots store) (tradingDay env) \<longrightarrow> refreshPrices env store = store) \<and>
   (\<not> isAfterMarketClose env \<longrightarrow> refreshPrices env store = store) \<and>
   (logConsistent store \<longrightarrow> distinct (saveLog (refreshCycles envs store)))"
proof -
  have "logConsistent store \<longrightarrow> distinct (saveLog (refreshCycles envs store))"
    using refreshCycles_logConsistent[of store envs] by (simp add: logConsistent_def)
  moreover have "saveLog (refreshPrices env store) \<noteq> saveLog store \<longrightarrow>
      isAfterMarketClose env \<and> \<not> hasEODData (snapshots store) (tradingDay env) \<and>
      tradingDay env = currentWeekday env \<and>
      saveLog (refreshPrices env store) = saveLog store @ [tradingDay env]"
    using refreshPrices_cases[of env store] by auto
  moreover have "tradingDay env \<noteq> currentWeekday env \<longrightarrow> refreshPrices env store = store"
    "hasEODData (snapshots store) (tradingDay env) \<longrightarrow> refreshPrices env store = store"
    "\<not> isAfterMarketClose env \<longrightarrow> refreshPrices env store = store"
    by (simp_all add: refreshPrices_def checkAndSaveEOD_def)
  ultimately show ?thesis by blast
qed

theorem eod_commit_once_per_trading_day_witness:
  "saveLog (refreshCycles
      [\<lparr>activeTrades = 2, pricesFetched = True, isAfterMarketClose = True,
        tradingDay = ''2026-01-05'', currentWeekday = ''2026-01-05'',
        computedSnapshot = Some \<lparr>balance = 10250, cashFlow = Some 0, incomplete = False\<rparr>\<rparr>,
       \<lparr>activeTrades = 2, pricesFetched = True, isAfterMarketClose = True,
        tradingDay = ''2026-01-05'', currentWeekday = ''2026-01-05'',
        computedSnapshot = Some \<lparr>balance = 10300, cashFlow = Some 0, incomplete = False\<rparr>\<rparr>]
      \<lparr>snapshots = Map.empty, saveLog = []\<rparr>) = [''2026-01-05''] \<and>
   refreshPrices
      \<lparr>activeTrades = 2, pricesFetched = True, isAfterMarketClose = True,
       tradingDay = ''2026-01-02'', currentWeekday = ''2026-01-05'',
       computedSnapshot = Some \<lparr>balance = 10250, cashFlow = Some 0, incomplete = False\<rparr>\<rparr>
      \<lparr>snapshots = Map.empty, saveLog = []\<rparr> = \<lparr>snapshots = Map.empty, saveLog = []\<rparr>"
proof -
  have c: "logConsistent \<lparr>snapshots = Map.empty, saveLog = []\<rparr>"
    by (simp add: logConsistent_def)
  have d: "''2026-01-02'' \<noteq> ''2026-01-05''" by simp
  show ?thesis
    using c d eod_commit_once_per_trading_day
      [of "\<lparr>activeTrades = 2, pricesFetched = True, isAfterMarketClose = True,
       tradingDay = ''2026-01-02'', currentWeekday = ''2026-01-05'',
       computedSnapshot = Some \<lparr>balance = 10250, cashFlow = Some 0, incomplete = False\<rparr>\<rparr>"
       "\<lparr>snapshots = Map.empty, saveLog = []\<rparr>" "[]"]
    by (simp add: refreshPrices_def checkAndSaveEOD_def saveEODSnapshot_def commitSnapshot_def
        storeEODSnapshot_def hasEODData_def Let_def)
qed

section \<open>Properties of the trade checksum\<close>

lemma digitChar_cases:
  fixes n :: nat
  assumes "n < 10"
  shows "n \<in> {0, 1, 2, 3, 4, 5, 6, 7, 8, 9}"
  using assms by (simp only: insert_iff empty_iff) arith

lemma digitChar_not_colon: "n < 10 \<Longrightarrow> digitChar n \<noteq> CHR '':''"
  using digitChar_cases[of n] by (auto simp add: digitChar_def)

lemma natToString_no_colon: "CHR '':'' \<notin> set (natToString n)"
proof (induction n rule: natToString.induct)
  case (1 n)
  show ?case
  proof (cases "n < 10")
    case True
    then show ?thesis using digitChar_not_colon[of n] by (subst natToString.simps) auto
  next
    case False
    then have "CHR '':'' \<notin> set (natToString (n div 10))" using "1" by simp
    moreover have "digitChar (n mod 10) \<noteq> CHR '':''" by (rule digitChar_not_colon) simp
    ultimately show ?thesis using False by (subst natToString.simps) auto
  qed
qed

lemma digitChar_inj: "m < 10 \<Longrightarrow> n < 10 \<Longrightarrow> digitChar m = digitChar n \<Longrightarrow> m = n"
  using digitChar_cases[of m] digitChar_cases[of n] by (auto simp add: digitChar_def)

lemma natToString_not_Nil: "natToString n \<noteq> []"
  by (subst natToString.simps) simp

lemma natToString_length_one: "length (natToString n) = 1 \<longleftrightarrow> n < 10"
proof (cases "n < 10")
  case True
  then show ?thesis by (subst natToString.simps) simp
next
  case False
  have "natToString (n div 10) \<noteq> []" by (rule natToString_not_Nil)
  then have "length (natToString (n div 10)) > 0" by simp
  then show ?thesis using False by (subst natToString.simps) simp
qed

lemma natToString_inj: "natToString m = natToString n \<Longrightarrow> m = n"
proof (induction m arbitrary: n rule: natToString.induct)
  case (1 m)
  show ?case
  proof (cases "m < 10")
    case True
    then have "length (natToString m) = 1" using natToString_length_one[of m] by simp
    then have n: "n < 10" using "1.prems" natToString_length_one[of n] by simp
    have "natToString m = [digitChar m]" using True by (subst natToString.simps) simp
    moreover have "natToString n = [digitChar n]" using n by (subst natToString.simps) simp
    ultimately show ?thesis using "1.prems" True n digitChar_inj by simp
  next
    case False
    then have "length (natToString m) \<noteq> 1" using natToString_length_one[of m] by simp
    then have n: "\<not> n < 10" using "1.prems" natToString_length_one[of n] by simp
    have m': "natToString m = natToString (m div 10) @ [digitChar (m mod 10)]"
      using False by (subst natToString.simps) simp
    have n': "natToString n = natToString (n div 10) @ [digitChar (n mod 10)]"
      using n by (subst natToString.simps) simp
    from m' n' "1.prems" have e: "natToString (m div 10) = natToString (n div 10)"
      and d: "digitChar (m mod 10) = digitChar (n mod 10)" by simp_all
    from "1.IH"[OF False e] have "m div 10 = n div 10" .
    moreover from d have "m mod 10 = n mod 10" by (intro digitChar_inj) simp_all
    ultimately show ?thesis by (metis div_mult_mod_eq)
  qed
qed

lemma split_at_first_colon:
  assumes "xs @ CHR '':'' # r = ys @ CHR '':'' # r'"
    and "CHR '':'' \<notin> set xs" and "CHR '':'' \<notin> set ys"
  shows "xs = ys"
  using assms
proof (induction xs arbitrary: ys)
  case Nil
  then show ?case by (cases ys) auto
next
  case (Cons a xs)
  then show ?case by (cases ys) auto
qed

lemma checksum_nonempty_form:
  "trades \<noteq> [] \<Longrightarrow> calculateTradeChecksum trades =
     natToString (length trades) @ CHR '':'' # joinComma (sort (map idOrEmpty trades))"
  by (simp add: calculateTradeChecksum_def Let_def)

lemma checksum_length_inj:
  assumes "calculateTradeChecksum ts = calculateTradeChecksum ts'"
  shows "length ts = length ts'"
proof (cases "ts = []")
  case True
  show ?thesis
  proof (cases "ts' = []")
    case True
    with \<open>ts = []\<close> show ?thesis by simp
  next
    case False
    have "CHR '':'' \<in> set (calculateTradeChecksum ts')"
      using False by (simp add: checksum_nonempty_form)
    moreover have "calculateTradeChecksum ts = ''0''" using True by (simp add: calculateTradeChecksum_def)
    ultimately show ?thesis using assms by simp
  qed
next
  case False
  note ne = this
  show ?thesis
  proof (cases "ts' = []")
    case True
    have "CHR '':'' \<in> set (calculateTradeChecksum ts)"
      using ne by (simp add: checksum_nonempty_form)
    moreover have "calculateTradeChecksum ts' = ''0''" using True by (simp add: calculateTradeChecksum_def)
    ultimately show ?thesis using assms by simp
  next
    case False
    from assms ne False have "natToString (length ts) = natToString (length ts')"
      by (auto simp add: checksum_nonempty_form natToString_no_colon intro: split_at_first_colon)
    then show ?thesis by (rule natToString_inj)
  qed
qed

lemma checksum_mset:
  assumes "mset (map t_id ts) = mset (map t_id ts')"
  shows "calculateTradeChecksum ts = calculateTradeChecksum ts'"
proof -
  have len: "length ts = length ts'"
    using assms by (metis length_map size_mset)
  have "mset (map idOrEmpty ts) = mset (map idOrEmpty ts')"
  proof -
    have "map idOrEmpty ts = map (\<lambda>i. if i = 0 then [] else natToString i) (map t_id ts)"
      by (simp add: idOrEmpty_def)
    moreover have "map idOrEmpty ts' = map (\<lambda>i. if i = 0 then [] else natToString i) (map t_id ts')"
      by (simp add: idOrEmpty_def)
    ultimately show ?thesis using assms by (metis mset_map)
  qed
  then have "sort (map idOrEmpty ts) = sort (map idOrEmpty ts')"
    by (intro properties_for_sort) simp_all
  then show ?thesis using len by (simp add: calculateTradeChecksum_def)
qed

lemma isCacheValid_of_record:
  assumes "tradeCount c \<noteq> 0" and "tradeChecksum c = Some (calculateTradeChecksum ts)"
  shows "isCacheValid (Some c) ts \<and> (length ts' \<noteq> length ts \<longrightarrow> \<not> isCacheValid (Some c) ts')"
  using assms checksum_length_inj[of ts' ts]
  by (auto simp add: isCacheValid_def Let_def)

lemma calculateAndCacheStats_keeps_cache:
  "snd (calculateAndCacheStats cache trades) = cache"
  by (simp add: calculateAndCacheStats_def Let_def)

lemma cacheAfterCalls_unchanged: "cacheAfterCalls tss cache = cache"
  by (induction tss arbitrary: cache) (simp_all add: calculateAndCacheStats_keeps_cache)

lemma empty_cache_never_valid:
  "\<not> isCacheValid (cacheAfterCalls tss (Some createEmptyCache)) trades"
  by (simp add: cacheAfterCalls_unchanged isCacheValid_def createEmptyCache_def)


section \<open>Properties of the calendar\<close>

lemma getDay_range: "0 \<le> getDay d \<and> getDay d < 7"
  by (simp add: getDay_def)

lemma getDay_shift: "getDay (d - getDay d + int k) = int k mod 7"
  unfolding getDay_def by presburger

lemma skipWeekends_props:
  "getDay (skipWeekends d) \<noteq> 0 \<and> getDay (skipWeekends d) \<noteq> 6 \<and> skipWeekends d \<le> d \<and>
   (\<forall>x. skipWeekends d < x \<and> x \<le> d \<longrightarrow> getDay x = 0 \<or> getDay x = 6)"
proof (induction d rule: skipWeekends.induct)
  case (1 d)
  show ?case
  proof (cases "getDay d = 0 \<or> getDay d = 6")
    case True
    then have e: "skipWeekends d = skipWeekends (d - 1)" by (subst skipWeekends.simps) simp
    have ih: "getDay (skipWeekends (d - 1)) \<noteq> 0 \<and> getDay (skipWeekends (d - 1)) \<noteq> 6 \<and>
        skipWeekends (d - 1) \<le> d - 1 \<and>
        (\<forall>x. skipWeekends (d - 1) < x \<and> x \<le> d - 1 \<longrightarrow> getDay x = 0 \<or> getDay x = 6)"
      using "1.IH"[OF True] .
    have "\<forall>x. skipWeekends (d - 1) < x \<and> x \<le> d \<longrightarrow> getDay x = 0 \<or> getDay x = 6"
    proof (intro allI impI)
      fix x assume x: "skipWeekends (d - 1) < x \<and> x \<le> d"
      show "getDay x = 0 \<or> getDay x = 6"
      proof (cases "x = d")
        case True with \<open>getDay d = 0 \<or> getDay d = 6\<close> show ?thesis by simp
      next
        case False
        with x have "skipWeekends (d - 1) < x \<and> x \<le> d - 1" by simp
        with ih show ?thesis by blast
      qed
    qed
    with ih show ?thesis unfolding e by simp
  next
    case False
    then have "skipWeekends d = d" by (subst skipWeekends.simps) simp
    with False show ?thesis by simp
  qed
qed

lemma getPreviousBusinessDay_props:
  "getDay (getPreviousBusinessDay d) \<noteq> 0 \<and> getDay (getPreviousBusinessDay d) \<noteq> 6 \<and>
   getPreviousBusinessDay d < d \<and>
   (\<forall>x. getPreviousBusinessDay d < x \<and> x < d \<longrightarrow> getDay x = 0 \<or> getDay x = 6)"
  using skipWeekends_props[of "d - 1"] by (auto simp add: getPreviousBusinessDay_def)

lemma rev_upt_map: "rev [0..<n] = map (\<lambda>k. n - 1 - k) [0..<n]"
  by (rule nth_equalityI) (simp_all add: rev_nth)

lemma getDaysInMonth_eq:
  "getDaysInMonth firstDay monthLen =
     map (\<lambda>k. mkDay (gridStart firstDay + int k)
                 (nat (getDay firstDay) \<le> k \<and> k < nat (getDay firstDay) + monthLen))
         [0..<gridLength firstDay monthLen]"
proof -
  define w where "w = nat (getDay firstDay)"
  define l where "l = nat (getDay (firstDay + int monthLen - 1))"
  have w: "int w = getDay firstDay" using getDay_range[of firstDay] by (simp add: w_def)
  have l6: "l \<le> 6" using getDay_range[of "firstDay + int monthLen - 1"] unfolding l_def by linarith
  let ?f = "\<lambda>k. mkDay (gridStart firstDay + int k) (w \<le> k \<and> k < w + monthLen)"
  have lead: "(if w > 0 then map (\<lambda>i. mkDay ((firstDay - 1) - int i) False) (rev [0..<w]) else [])
      = map ?f [0..<w]"
    by (auto simp add: rev_upt_map gridStart_def w[symmetric] o_def of_nat_diff
        intro!: nth_equalityI arg_cong2[where f = mkDay])
  have cur: "map (\<lambda>day. mkDay (firstDay + int day - 1) True) [1..<monthLen + 1]
      = map ?f [w..<w + monthLen]"
  proof -
    have a: "[1..<monthLen + 1] = map Suc [0..<monthLen]"
      by (simp add: map_Suc_upt del: upt_Suc)
    have b: "[w..<w + monthLen] = map (\<lambda>i. i + w) [0..<monthLen]"
      by (simp add: map_add_upt add.commute)
    have "mkDay (firstDay + int (Suc i) - 1) True = ?f (i + w)" if "i < monthLen" for i
      using that by (auto simp add: gridStart_def w[symmetric] intro!: arg_cong2[where f = mkDay])
    then show ?thesis unfolding a b by (simp add: o_def del: upt_Suc)
  qed
  have trail: "(if l < 6 then map (\<lambda>i. mkDay (firstDay + int monthLen - 1 + int i) False) [1..<(6 - l) + 1] else [])
      = map ?f [w + monthLen..<w + monthLen + (6 - l)]"
  proof -
    have a: "[1..<(6 - l) + 1] = map Suc [0..<6 - l]"
      by (simp add: map_Suc_upt del: upt_Suc)
    have b: "[w + monthLen..<w + monthLen + (6 - l)] = map (\<lambda>i. i + (w + monthLen)) [0..<6 - l]"
      by (simp add: map_add_upt add.commute)
    have c: "mkDay (firstDay + int monthLen - 1 + int (Suc i)) False = ?f (i + (w + monthLen))" for i
      by (auto simp add: gridStart_def w[symmetric] intro!: arg_cong2[where f = mkDay])
    show ?thesis
    proof (cases "l < 6")
      case True
      then show ?thesis unfolding a b
        by (auto simp add: o_def gridStart_def w[symmetric] simp del: upt_Suc
            intro!: arg_cong2[where f = mkDay])
    next
      case False
      with l6 have "6 - l = 0" by simp
      with False show ?thesis by simp
    qed
  qed
  have split: "[0..<w + monthLen + (6 - l)] = [0..<w] @ [w..<w + monthLen] @ [w + monthLen..<w + monthLen + (6 - l)]"
  proof -
    have "[0..<w + monthLen + (6 - l)] = [0..<w + monthLen] @ [w + monthLen..<w + monthLen + (6 - l)]"
      by (rule upt_add_eq_append) simp
    moreover have "[0..<w + monthLen] = [0..<w] @ [w..<w + monthLen]"
      by (rule upt_add_eq_append) simp
    ultimately show ?thesis by simp
  qed
  have "getDaysInMonth firstDay monthLen =
      (if w > 0 then map (\<lambda>i. mkDay ((firstDay - 1) - int i) False) (rev [0..<w]) else [])
      @ map (\<lambda>day. mkDay (firstDay + int day - 1) True) [1..<monthLen + 1]
      @ (if l < 6 then map (\<lambda>i. mkDay (firstDay + int monthLen - 1 + int i) False) [1..<(6 - l) + 1] else [])"
    by (simp add: getDaysInMonth_def Let_def w_def l_def)
  also have "\<dots> = map ?f [0..<w] @ map ?f [w..<w + monthLen] @ map ?f [w + monthLen..<w + monthLen + (6 - l)]"
    unfolding lead cur trail ..
  also have "\<dots> = map ?f [0..<w + monthLen + (6 - l)]"
    unfolding split by simp
  finally show ?thesis by (simp add: gridLength_def w_def l_def)
qed

lemma length_getDaysInMonth: "length (getDaysInMonth firstDay monthLen) = gridLength firstDay monthLen"
  by (simp add: getDaysInMonth_eq)

lemma nth_getDaysInMonth:
  "k < gridLength firstDay monthLen \<Longrightarrow>
   getDaysInMonth firstDay monthLen ! k =
     mkDay (gridStart firstDay + int k)
       (nat (getDay firstDay) \<le> k \<and> k < nat (getDay firstDay) + monthLen)"
  by (simp add: getDaysInMonth_eq)

lemma date_mkDay [simp]: "date (mkDay d c) = d" and cur_mkDay [simp]: "isCurrentMonth (mkDay d c) = c"
  by (simp_all add: mkDay_def)

lemma getDay_grid_cell:
  "k < gridLength firstDay monthLen \<Longrightarrow>
   getDay (date (getDaysInMonth firstDay monthLen ! k)) = int k mod 7"
  by (simp add: nth_getDaysInMonth gridStart_def getDay_shift)

lemma monthDayEntry_eq:
  "monthDayEntry fmt cache s day =
     (if isCurrentMonth day
      then map_option (\<lambda>v. (fmt (date day), v)) (calendarDay fmt cache s (date day))
      else None)"
  by (simp add: monthDayEntry_def calendarDay_def previousBalance_def cashFlowOrZero_def Let_def
      split: option.splits)

lemma monthLoop_other:
  "(\<forall>day \<in> set days. fmt (date day) \<noteq> k) \<Longrightarrow> monthLoop fmt cache s days md k = md k"
proof (induction days arbitrary: md)
  case Nil
  then show ?case by simp
next
  case (Cons day days)
  then show ?case by (auto simp add: monthDayEntry_eq split: option.splits)
qed

lemma monthLoop_at:
  "distinct (map (\<lambda>day. fmt (date day)) days) \<Longrightarrow> day \<in> set days \<Longrightarrow>
   monthLoop fmt cache s days md (fmt (date day)) =
     (if isCurrentMonth day
      then (case calendarDay fmt cache s (date day) of None \<Rightarrow> md (fmt (date day)) | Some v \<Rightarrow> Some v)
      else md (fmt (date day)))"
proof (induction days arbitrary: md)
  case Nil
  then show ?case by simp
next
  case (Cons a days)
  show ?case
  proof (cases "day = a")
    case True
    have "fmt (date a) \<notin> (\<lambda>day. fmt (date day)) ` set days" using Cons.prems(1) by simp
    then have "\<forall>x \<in> set days. fmt (date x) \<noteq> fmt (date a)" by (metis imageI)
    then have o: "monthLoop fmt cache s days md' (fmt (date a)) = md' (fmt (date a))" for md'
      by (rule monthLoop_other)
    show ?thesis unfolding True
      by (simp add: monthDayEntry_eq o split: option.splits)
  next
    case False
    then have in': "day \<in> set days" using Cons.prems(2) by simp
    have d': "distinct (map (\<lambda>day. fmt (date day)) days)" using Cons.prems(1) by simp
    have "fmt (date a) \<notin> (\<lambda>day. fmt (date day)) ` set days" using Cons.prems(1) by simp
    then have ne: "fmt (date a) \<noteq> fmt (date day)" using in' by (metis imageI)
    show ?thesis
      using Cons.IH[OF d' in'] ne
      by (simp add: monthDayEntry_eq split: option.splits)
  qed
qed

lemma grid_dates:
  "map date (getDaysInMonth firstDay monthLen) =
     map (\<lambda>k. gridStart firstDay + int k) [0..<gridLength firstDay monthLen]"
  by (simp add: getDaysInMonth_eq o_def)

lemma grid_keys_distinct:
  assumes "inj fmt"
  shows "distinct (map (\<lambda>day. fmt (date day)) (getDaysInMonth firstDay monthLen))"
proof -
  have "map (\<lambda>day. fmt (date day)) (getDaysInMonth firstDay monthLen) =
      map (\<lambda>k. fmt (gridStart firstDay + int k)) [0..<gridLength firstDay monthLen]"
    by (simp add: getDaysInMonth_eq o_def)
  moreover have "inj (\<lambda>k. fmt (gridStart firstDay + int k))"
  proof (rule injI)
    fix x y assume "fmt (gridStart firstDay + int x) = fmt (gridStart firstDay + int y)"
    then have "gridStart firstDay + int x = gridStart firstDay + int y" using assms by (rule injD[rotated])
    then show "x = y" by simp
  qed
  then have "inj_on (\<lambda>k. fmt (gridStart firstDay + int k)) (set [0..<gridLength firstDay monthLen])"
    by (rule inj_on_subset) simp
  ultimately show ?thesis by (simp add: distinct_map)
qed

lemma monthLoop_grid_lookup:
  assumes "inj fmt"
  shows "monthLoop fmt cache s (getDaysInMonth firstDay monthLen) Map.empty (fmt d) =
     (if firstDay \<le> d \<and> d < firstDay + int monthLen then calendarDay fmt cache s d else None)"
proof (cases "gridStart firstDay \<le> d \<and> d < gridStart firstDay + int (gridLength firstDay monthLen)")
  case True
  define k where "k = nat (d - gridStart firstDay)"
  have k: "k < gridLength firstDay monthLen" and dk: "d = gridStart firstDay + int k"
    using True by (auto simp add: k_def)
  define day where "day = getDaysInMonth firstDay monthLen ! k"
  have day: "day = mkDay d (nat (getDay firstDay) \<le> k \<and> k < nat (getDay firstDay) + monthLen)"
    unfolding day_def dk using k by (simp add: nth_getDaysInMonth)
  have mem: "day \<in> set (getDaysInMonth firstDay monthLen)"
    unfolding day_def using k by (simp add: length_getDaysInMonth)
  have w: "int (nat (getDay firstDay)) = getDay firstDay" using getDay_range[of firstDay] by simp
  have cur: "isCurrentMonth day \<longleftrightarrow> firstDay \<le> d \<and> d < firstDay + int monthLen"
  proof -
    have "nat (getDay firstDay) \<le> k \<longleftrightarrow> getDay firstDay \<le> int k" using w by linarith
    moreover have "k < nat (getDay firstDay) + monthLen \<longleftrightarrow> int k < getDay firstDay + int monthLen"
      using w by linarith
    ultimately show ?thesis unfolding day by (auto simp add: dk gridStart_def)
  qed
  have "monthLoop fmt cache s (getDaysInMonth firstDay monthLen) Map.empty (fmt (date day)) =
     (if isCurrentMonth day
      then (case calendarDay fmt cache s (date day) of None \<Rightarrow> Map.empty (fmt (date day)) | Some v \<Rightarrow> Some v)
      else Map.empty (fmt (date day)))"
    using grid_keys_distinct[OF assms] mem by (rule monthLoop_at)
  moreover have "date day = d" by (simp add: day)
  ultimately show ?thesis using cur by (simp split: option.splits)
next
  case False
  have "\<forall>day \<in> set (getDaysInMonth firstDay monthLen). fmt (date day) \<noteq> fmt d"
  proof
    fix day assume "day \<in> set (getDaysInMonth firstDay monthLen)"
    then have "date day \<in> set (map date (getDaysInMonth firstDay monthLen))" by simp
    then have "date day \<noteq> d" using False unfolding grid_dates by auto
    then show "fmt (date day) \<noteq> fmt d" using assms by (auto dest: injD)
  qed
  then have "monthLoop fmt cache s (getDaysInMonth firstDay monthLen) Map.empty (fmt d) = Map.empty (fmt d)"
    by (rule monthLoop_other)
  moreover have "\<not> (firstDay \<le> d \<and> d < firstDay + int monthLen)"
  proof
    assume a: "firstDay \<le> d \<and> d < firstDay + int monthLen"
    have r: "0 \<le> getDay firstDay" "0 \<le> getDay (firstDay + int monthLen - 1)"
       "getDay (firstDay + int monthLen - 1) < 7" using getDay_range by auto
    have "gridStart firstDay \<le> d" using a r by (simp add: gridStart_def)
    moreover have "d < gridStart firstDay + int (gridLength firstDay monthLen)"
      using a r by (simp add: gridStart_def gridLength_def)
    ultimately show False using False by simp
  qed
  ultimately show ?thesis by auto
qed

lemma digitChar_digit: "n < 10 \<Longrightarrow> digitChar n \<in> set ''0123456789''"
  using digitChar_cases[of n] by (auto simp add: digitChar_def)

lemma natToString_digits: "set (natToString n) \<subseteq> set ''0123456789''"
proof (induction n rule: natToString.induct)
  case (1 n)
  show ?case
  proof (cases "n < 10")
    case True
    then show ?thesis using digitChar_digit[of n] by (subst natToString.simps) simp
  next
    case False
    then have "set (natToString (n div 10)) \<subseteq> set ''0123456789''" using "1" by simp
    moreover have "digitChar (n mod 10) \<in> set ''0123456789''" by (rule digitChar_digit) simp
    ultimately show ?thesis using False by (subst natToString.simps) simp
  qed
qed

lemma natToString_no_minus: "natToString n \<noteq> CHR ''-'' # r"
proof
  assume "natToString n = CHR ''-'' # r"
  then have "CHR ''-'' \<in> set (natToString n)" by simp
  then have "CHR ''-'' \<in> set ''0123456789''" using natToString_digits by blast
  then show False by simp
qed

lemma inj_dayKey: "inj dayKey"
proof (rule injI)
  fix x y :: int
  assume e: "dayKey x = dayKey y"
  show "x = y"
  proof (cases "x < 0")
    case True
    note x = this
    show ?thesis
    proof (cases "y < 0")
      case True
      with x e have "natToString (nat (- x)) = natToString (nat (- y))" by (simp add: dayKey_def)
      then have "nat (- x) = nat (- y)" by (rule natToString_inj)
      with x True show ?thesis by simp
    next
      case False
      with x e show ?thesis using natToString_no_minus[of "nat y" "natToString (nat (- x))"]
        by (simp add: dayKey_def)
    qed
  next
    case False
    note x = this
    show ?thesis
    proof (cases "y < 0")
      case True
      with x e show ?thesis using natToString_no_minus[of "nat x" "natToString (nat (- y))"]
        by (simp add: dayKey_def)
    next
      case False
      with x e have "natToString (nat x) = natToString (nat y)" by (simp add: dayKey_def)
      then have "nat x = nat y" by (rule natToString_inj)
      with x False show ?thesis by simp
    qed
  qed
qed

lemma calculateMonthData_lookup:
  assumes "inj fmt" and "\<not> isCalculating cal"
  shows "monthData (calculateMonthData fmt cache s firstDay monthLen cal) (fmt d) =
     (if firstDay \<le> d \<and> d < firstDay + int monthLen then calendarDay fmt cache s d else None)"
  using assms(2) monthLoop_grid_lookup[OF assms(1), of cache s firstDay monthLen d]
  by (simp add: calculateMonthData_def)

text \<open>
  Claim C3.  The claim that a day is reported as having no data whenever the snapshot of
  the previous business day is missing or incomplete fails: for January 2026 with a
  complete snapshot for Friday 2 January (day 20455, balance 10500) and none for Thursday
  1 January, the calendar stores a daily P\&L of 500 for the Friday, measured against the
  starting account size of 10000.
\<close>
theorem calendar_reports_pnl_without_previous_snapshot:
  "getEODData (Map.empty(dayKey 20455 \<mapsto> \<lparr>balance = 10500, cashFlow = Some 0, incomplete = False\<rparr>))
     (dayKey (getPreviousBusinessDay 20455)) = None \<and>
   monthData
     (calculateMonthData dayKey
        (Map.empty(dayKey 20455 \<mapsto> \<lparr>balance = 10500, cashFlow = Some 0, incomplete = False\<rparr>))
        10000 20454 31 \<lparr>monthData = Map.empty, isCalculating = False\<rparr>)
     (dayKey 20455)
   = Some \<lparr>d_pnl = 500, d_balance = 10500, d_cashFlow = 0\<rparr>"
proof -
  have p: "getPreviousBusinessDay 20455 = 20454"
    by (simp add: getPreviousBusinessDay_def skipWeekends.simps getDay_def)
  have ne: "dayKey 20454 \<noteq> dayKey 20455"
    using inj_dayKey by (auto dest: injD)
  have "monthData
     (calculateMonthData dayKey
        (Map.empty(dayKey 20455 \<mapsto> \<lparr>balance = 10500, cashFlow = Some 0, incomplete = False\<rparr>))
        10000 20454 31 \<lparr>monthData = Map.empty, isCalculating = False\<rparr>)
     (dayKey 20455)
    = calendarDay dayKey
        (Map.empty(dayKey 20455 \<mapsto> \<lparr>balance = 10500, cashFlow = Some 0, incomplete = False\<rparr>))
        10000 20455"
    by (subst calculateMonthData_lookup[OF inj_dayKey]) simp_all
  then show ?thesis
    using ne by (simp add: calendarDay_def previousBalance_def cashFlowOrZero_def getEODData_def p)
qed

text \<open>
  Claim C3 as amended.  For every day of the displayed month: the day has no data when
  its own snapshot is missing or marked incomplete; when its own snapshot and the snapshot
  of the previous business day are both present and complete, the daily P\&L is the
  balance of the day minus the balance of the previous business day minus the day's cash
  flow (0 when the snapshot has none); and on the first day of the history, when no
  snapshot is stored for any earlier day, the daily P\&L is measured against the starting
  account size.  The previous business day is the latest day before the given one that is
  not a Saturday or Sunday.  Nothing is stated for a day whose previous business day has
  a missing or incomplete snapshot although earlier snapshots exist.
\<close>

theorem calendar_daily_pnl_from_snapshots:
  assumes "inj fmt" and "\<not> isCalculating cal"
    and "firstDay \<le> d" and "d < firstDay + int monthLen"
  shows "(getEODData cache (fmt d) = None \<longrightarrow>
            monthData (calculateMonthData fmt cache startingAccountSize firstDay monthLen cal) (fmt d)
              = None) \<and>
         (getEODData cache (fmt d) = Some e \<and> incomplete e \<longrightarrow>
            monthData (calculateMonthData fmt cache startingAccountSize firstDay monthLen cal) (fmt d)
              = None) \<and>
         (getEODData cache (fmt d) = Some e \<and> \<not> incomplete e \<and>
          getEODData cache (fmt (getPreviousBusinessDay d)) = Some p \<and> \<not> incomplete p \<longrightarrow>
            monthData (calculateMonthData fmt cache startingAccountSize firstDay monthLen cal) (fmt d)
              = Some \<lparr>d_pnl = balance e - balance p - cashFlowOrZero e,
                       d_balance = balance e, d_cashFlow = cashFlowOrZero e\<rparr>) \<and>
         (getEODData cache (fmt d) = Some e \<and> \<not> incomplete e \<and>
          (\<forall>d'. d' < d \<longrightarrow> getEODData cache (fmt d') = None) \<longrightarrow>
            monthData (calculateMonthData fmt cache startingAccountSize firstDay monthLen cal) (fmt d)
              = Some \<lparr>d_pnl = balance e - startingAccountSize - cashFlowOrZero e,
                       d_balance = balance e, d_cashFlow = cashFlowOrZero e\<rparr>) \<and>
         getDay (getPreviousBusinessDay d) \<noteq> 0 \<and> getDay (getPreviousBusinessDay d) \<noteq> 6 \<and>
         getPreviousBusinessDay d < d \<and>
         (\<forall>x. getPreviousBusinessDay d < x \<and> x < d \<longrightarrow> getDay x = 0 \<or> getDay x = 6)"
proof -
  have m: "monthData (calculateMonthData fmt cache startingAccountSize firstDay monthLen cal) (fmt d)
      = calendarDay fmt cache startingAccountSize d"
    using calculateMonthData_lookup[OF assms(1,2), of cache startingAccountSize firstDay monthLen d]
      assms(3,4) by simp
  have first: "previousBalance fmt cache startingAccountSize d = startingAccountSize"
    if "\<forall>d'. d' < d \<longrightarrow> getEODData cache (fmt d') = None"
  proof -
    have "getPreviousBusinessDay d < d" using getPreviousBusinessDay_props[of d] by simp
    with that have "getEODData cache (fmt (getPreviousBusinessDay d)) = None" by simp
    then show ?thesis by (simp add: previousBalance_def)
  qed
  show ?thesis
    unfolding m using getPreviousBusinessDay_props[of d] first
    by (auto simp add: calendarDay_def previousBalance_def)
qed

theorem calendar_daily_pnl_from_snapshots_witness:
  "monthData
     (calculateMonthData dayKey
        (Map.empty(dayKey 20458 \<mapsto> \<lparr>balance = 10200, cashFlow = Some 0, incomplete = False\<rparr>,
                   dayKey 20455 \<mapsto> \<lparr>balance = 10000, cashFlow = Some 0, incomplete = False\<rparr>,
                   dayKey 20459 \<mapsto> \<lparr>balance = 10900, cashFlow = Some 500, incomplete = True\<rparr>))
        10000 20454 31 \<lparr>monthData = Map.empty, isCalculating = False\<rparr>)
     (dayKey 20458)
   = Some \<lparr>d_pnl = 200, d_balance = 10200, d_cashFlow = 0\<rparr> \<and>
   monthData
     (calculateMonthData dayKey
        (Map.empty(dayKey 20458 \<mapsto> \<lparr>balance = 10200, cashFlow = Some 0, incomplete = False\<rparr>,
                   dayKey 20455 \<mapsto> \<lparr>balance = 10000, cashFlow = Some 0, incomplete = False\<rparr>,
                   dayKey 20459 \<mapsto> \<lparr>balance = 10900, cashFlow = Some 500, incomplete = True\<rparr>))
        10000 20454 31 \<lparr>monthData = Map.empty, isCalculating = False\<rparr>)
     (dayKey 20459)
   = None \<and>
   monthData
     (calculateMonthData dayKey
        (Map.empty(dayKey 20458 \<mapsto> \<lparr>balance = 10200, cashFlow = Some 0, incomplete = False\<rparr>,
                   dayKey 20455 \<mapsto> \<lparr>balance = 10000, cashFlow = Some 0, incomplete = False\<rparr>,
                   dayKey 20459 \<mapsto> \<lparr>balance = 10900, cashFlow = Some 500, incomplete = True\<rparr>))
        10000 20454 31 \<lparr>monthData = Map.empty, isCalculating = False\<rparr>)
     (dayKey 20455)
   = Some \<lparr>d_pnl = 0, d_balance = 10000, d_cashFlow = 0\<rparr> \<and>
   monthData
     (calculateMonthData dayKey
        (Map.empty(dayKey 20458 \<mapsto> \<lparr>balance = 10200, cashFlow = Some 0, incomplete = False\<rparr>,
                   dayKey 20455 \<mapsto> \<lparr>balance = 10000, cashFlow = Some 0, incomplete = False\<rparr>,
                   dayKey 20459 \<mapsto> \<lparr>balance = 10900, cashFlow = Some 500, incomplete = True\<rparr>))
        10000 20454 31 \<lparr>monthData = Map.empty, isCalculating = False\<rparr>)
     (dayKey 20460)
   = None"
proof -
  let ?cache = "Map.empty(dayKey 20458 \<mapsto> \<lparr>balance = 10200, cashFlow = Some 0, incomplete = False\<rparr>,
                   dayKey 20455 \<mapsto> \<lparr>balance = 10000, cashFlow = Some 0, incomplete = False\<rparr>,
                   dayKey 20459 \<mapsto> \<lparr>balance = 10900, cashFlow = Some 500, incomplete = True\<rparr>)"
  have p: "getPreviousBusinessDay 20458 = 20455"
    by (simp add: getPreviousBusinessDay_def skipWeekends.simps getDay_def)
  have c: "\<not> isCalculating \<lparr>monthData = Map.empty, isCalculating = False\<rparr>" by simp
  have f: "\<forall>d'. d' < 20455 \<longrightarrow> getEODData ?cache (dayKey d') = None"
    by (simp add: getEODData_def inj_eq[OF inj_dayKey])
  have e1: "getEODData ?cache (dayKey 20458) = Some \<lparr>balance = 10200, cashFlow = Some 0, incomplete = False\<rparr>"
    and e2: "getEODData ?cache (dayKey 20455) = Some \<lparr>balance = 10000, cashFlow = Some 0, incomplete = False\<rparr>"
    and e3: "getEODData ?cache (dayKey 20459) = Some \<lparr>balance = 10900, cashFlow = Some 500, incomplete = True\<rparr>"
    and e4: "getEODData ?cache (dayKey 20460) = None"
    by (simp_all add: getEODData_def inj_eq[OF inj_dayKey])
  show ?thesis
    using f
      calendar_daily_pnl_from_snapshots [OF inj_dayKey c, where firstDay = 20454 and d = 20458
        and monthLen = 31 and cache = ?cache and startingAccountSize = 10000
        and e = "\<lparr>balance = 10200, cashFlow = Some 0, incomplete = False\<rparr>"
        and p = "\<lparr>balance = 10000, cashFlow = Some 0, incomplete = False\<rparr>"]
      calendar_daily_pnl_from_snapshots [OF inj_dayKey c, where firstDay = 20454 and d = 20459
        and monthLen = 31 and cache = ?cache and startingAccountSize = 10000
        and e = "\<lparr>balance = 10900, cashFlow = Some 500, incomplete = True\<rparr>"
        and p = "\<lparr>balance = 10200, cashFlow = Some 0, incomplete = False\<rparr>"]
      calendar_daily_pnl_from_snapshots [OF inj_dayKey c, where firstDay = 20454 and d = 20455
        and monthLen = 31 and cache = ?cache and startingAccountSize = 10000
        and e = "\<lparr>balance = 10000, cashFlow = Some 0, incomplete = False\<rparr>"
        and p = "\<lparr>balance = 10000, cashFlow = Some 0, incomplete = False\<rparr>"]
      calendar_daily_pnl_from_snapshots [OF inj_dayKey c, where firstDay = 20454 and d = 20460
        and monthLen = 31 and cache = ?cache and startingAccountSize = 10000
        and e = "\<lparr>balance = 10000, cashFlow = Some 0, incomplete = False\<rparr>"
        and p = "\<lparr>balance = 10000, cashFlow = Some 0, incomplete = False\<rparr>"]
    unfolding e1 e2 e3 e4 p
    by (simp add: cashFlowOrZero_def)
qed

text \<open>
  What the amended claim leaves out: a day after a gap.  With a complete snapshot of
  49900 for Wednesday 31 December 2025 (day 20453), none for Thursday 1 January and a
  complete one of 50000 for Friday 2 January (day 20455), the Friday is measured against
  the starting account size of 10000 and gets a daily P\&L of 40000.
\<close>

lemma calendar_gap_measured_against_starting_size:
  "monthData
     (calculateMonthData dayKey
        (Map.empty(dayKey 20453 \<mapsto> \<lparr>balance = 49900, cashFlow = Some 0, incomplete = False\<rparr>,
                   dayKey 20455 \<mapsto> \<lparr>balance = 50000, cashFlow = Some 0, incomplete = False\<rparr>))
        10000 20454 31 \<lparr>monthData = Map.empty, isCalculating = False\<rparr>)
     (dayKey 20455)
   = Some \<lparr>d_pnl = 40000, d_balance = 50000, d_cashFlow = 0\<rparr>"
proof -
  have p: "getPreviousBusinessDay 20455 = 20454"
    by (simp add: getPreviousBusinessDay_def skipWeekends.simps getDay_def)
  show ?thesis
    by (subst calculateMonthData_lookup[OF inj_dayKey])
       (simp_all add: calendarDay_def previousBalance_def cashFlowOrZero_def getEODData_def p
          inj_eq[OF inj_dayKey])
qed

lemma weeklyLoop_eq:
  "(\<forall>i \<in> set is. int i \<le> K) \<Longrightarrow>
   weeklyLoop fmt md K days is (t, h) =
     (t + sum_list (concat (map (\<lambda>i. case md (fmt (date (days ! nat (K - int i)))) of
                                        Some x \<Rightarrow> [d_pnl x] | None \<Rightarrow> []) is)),
      h \<or> concat (map (\<lambda>i. case md (fmt (date (days ! nat (K - int i)))) of
                             Some x \<Rightarrow> [d_pnl x] | None \<Rightarrow> []) is) \<noteq> [])"
proof (induction "is" arbitrary: t h)
  case Nil
  then show ?case by simp
next
  case (Cons i rest)
  then have r: "\<forall>i \<in> set rest. int i \<le> K" and i: "\<not> K - int i < 0" by auto
  show ?case
    using i by (cases "md (fmt (date (days ! nat (K - int i))))")
      (simp_all add: Cons.IH[OF r] Let_def)
qed

lemma saturday_index:
  assumes "k < gridLength firstDay monthLen"
    and "getDay (date (getDaysInMonth firstDay monthLen ! k)) = 6"
  shows "6 \<le> k"
proof -
  have "int k mod 7 = 6" using assms by (simp add: getDay_grid_cell)
  then show ?thesis by presburger
qed

lemma grid_cell_before:
  assumes "k < gridLength firstDay monthLen" and "i \<le> k"
  shows "date (getDaysInMonth firstDay monthLen ! nat (int k - int i)) =
         date (getDaysInMonth firstDay monthLen ! k) - int i"
proof -
  have "nat (int k - int i) = k - i" using assms(2) by simp
  moreover have "k - i < gridLength firstDay monthLen" using assms(1) by simp
  ultimately show ?thesis using assms by (simp add: nth_getDaysInMonth of_nat_diff)
qed

lemma getDay_before_saturday:
  assumes "getDay x = 6"
  shows "getDay (x - 1) = 5" "getDay (x - 2) = 4" "getDay (x - 3) = 3"
    "getDay (x - 4) = 2" "getDay (x - 5) = 1"
proof -
  have m: "(x + 4) mod 7 = 6" using assms by (simp add: getDay_def)
  show "getDay (x - 1) = 5" unfolding getDay_def using m by presburger
  show "getDay (x - 2) = 4" unfolding getDay_def using m by presburger
  show "getDay (x - 3) = 3" unfolding getDay_def using m by presburger
  show "getDay (x - 4) = 2" unfolding getDay_def using m by presburger
  show "getDay (x - 5) = 1" unfolding getDay_def using m by presburger
qed

text \<open>
  On a Saturday cell of the grid the weekly loop reads the month data at the five days
  before the Saturday, which are the Friday, Thursday, Wednesday, Tuesday and Monday
  before it, skips the days without an entry and returns null when none has one.
\<close>

lemma calculateWeeklyPnL_saturday:
  assumes "k < length (getDaysInMonth firstDay monthLen)"
    and "getDay (date (getDaysInMonth firstDay monthLen ! k)) = 6"
  shows "calculateWeeklyPnL fmt md (date (getDaysInMonth firstDay monthLen ! k)) (int k)
           (getDaysInMonth firstDay monthLen)
         = spec_weeklyPnL fmt md (date (getDaysInMonth firstDay monthLen ! k)) \<and>
         map getDay (weekdaysBefore (date (getDaysInMonth firstDay monthLen ! k))) = [5, 4, 3, 2, 1] \<and>
         getWeekRange fmt (date (getDaysInMonth firstDay monthLen ! k))
           = (fmt (date (getDaysInMonth firstDay monthLen ! k) - 5),
              fmt (date (getDaysInMonth firstDay monthLen ! k) - 1))"
proof -
  let ?days = "getDaysInMonth firstDay monthLen"
  let ?sat = "date (?days ! k)"
  have k: "k < gridLength firstDay monthLen" using assms(1) by (simp add: length_getDaysInMonth)
  have k6: "6 \<le> k" using k assms(2) by (rule saturday_index)
  have b: "date (?days ! nat (int k - int i)) = ?sat - int i" if "i \<le> 5" for i
    using k by (rule grid_cell_before) (use that k6 in simp)
  have le: "\<forall>i \<in> set [1, 2, 3, 4, 5::nat]. int i \<le> int k" using k6 by simp
  define A where "A = concat (map (\<lambda>i. case md (fmt (date (?days ! nat (int k - int i)))) of
                             Some x \<Rightarrow> [d_pnl x] | None \<Rightarrow> []) [1, 2, 3, 4, 5::nat])"
  define found where "found = concat (map (\<lambda>d. case md (fmt d) of Some x \<Rightarrow> [d_pnl x] | None \<Rightarrow> [])
                             (weekdaysBefore ?sat))"
  define r where "r = weeklyLoop fmt md (int k) ?days [1, 2, 3, 4, 5] (0, False)"
  have e1: "r = (0 + sum_list A, False \<or> A \<noteq> [])"
    unfolding r_def A_def using le by (rule weeklyLoop_eq)
  have e2: "A = found"
    unfolding A_def found_def
    using b[of 1] b[of 2] b[of 3] b[of 4] b[of 5] by (simp add: weekdaysBefore_def)
  have e3: "r = (sum_list found, found \<noteq> [])" unfolding e1 e2 by simp
  have "calculateWeeklyPnL fmt md ?sat (int k) ?days = (if found \<noteq> [] then Some (sum_list found) else None)"
    unfolding calculateWeeklyPnL_def r_def[symmetric] e3 by simp
  moreover have "spec_weeklyPnL fmt md ?sat = (if found = [] then None else Some (sum_list found))"
    unfolding spec_weeklyPnL_def found_def[symmetric] by (simp add: Let_def)
  ultimately have w: "calculateWeeklyPnL fmt md ?sat (int k) ?days = spec_weeklyPnL fmt md ?sat"
    by simp
  have g: "map getDay (weekdaysBefore ?sat) = [5, 4, 3, 2, 1]"
    using assms(2) by (simp add: weekdaysBefore_def getDay_before_saturday)
  show ?thesis using w g by (simp add: getWeekRange_def Let_def)
qed

lemma business_days_last_week_of_july:
  "getPreviousBusinessDay 20661 = 20658" "getPreviousBusinessDay 20662 = 20661"
  "getPreviousBusinessDay 20663 = 20662" "getPreviousBusinessDay 20664 = 20663"
  "getPreviousBusinessDay 20665 = 20664"
  by (simp_all add: getPreviousBusinessDay_def skipWeekends.simps getDay_def)

lemma daily_pnl_last_week_of_july:
  "calendarDay dayKey lastWeekOfJuly2026 10000 20661 = Some \<lparr>d_pnl = 100, d_balance = 10100, d_cashFlow = 0\<rparr>"
  "calendarDay dayKey lastWeekOfJuly2026 10000 20662 = Some \<lparr>d_pnl = -50, d_balance = 10050, d_cashFlow = 0\<rparr>"
  "calendarDay dayKey lastWeekOfJuly2026 10000 20663 = Some \<lparr>d_pnl = 25, d_balance = 10075, d_cashFlow = 0\<rparr>"
  "calendarDay dayKey lastWeekOfJuly2026 10000 20664 = Some \<lparr>d_pnl = 0, d_balance = 10075, d_cashFlow = 0\<rparr>"
  "calendarDay dayKey lastWeekOfJuly2026 10000 20665 = Some \<lparr>d_pnl = 75, d_balance = 10150, d_cashFlow = 0\<rparr>"
  by (simp_all add: calendarDay_def previousBalance_def cashFlowOrZero_def getEODData_def
      lastWeekOfJuly2026_def business_days_last_week_of_july inj_eq[OF inj_dayKey])

text \<open>
  Claim C9.  For a Saturday cell the loop of \<^verbatim>\<open>_calculateWeeklyPnL\<close> does run over the
  five cells before it, Friday back to Monday, and sums the entries the month data holds
  for them (\<open>calculateWeeklyPnL_saturday\<close>).  But \<^verbatim>\<open>calculateMonthData\<close> fills the
  month data for days of the displayed month only, so days of the week that belong to the
  neighbouring month are dropped although they have daily P\&L.  With the snapshots of
  the last week of July 2026, the cell of Saturday 1 August gets no weekly P\&L when
  August is displayed (index 6 of the grid), where the claim and the function's own
  description ("Sums P\&L from Monday through Friday of the week") require 150; the
  same Saturday as trailing cell of July (index 34) gets 150.
\<close>

theorem weekly_pnl_drops_days_of_neighbouring_month:
  "calculateWeeklyPnL dayKey
     (monthData (calculateMonthData dayKey lastWeekOfJuly2026 10000 20666 31
                   \<lparr>monthData = Map.empty, isCalculating = False\<rparr>))
     20666 6 (getDaysInMonth 20666 31) = None \<and>
   calculateWeeklyPnL dayKey
     (monthData (calculateMonthData dayKey lastWeekOfJuly2026 10000 20635 31
                   \<lparr>monthData = Map.empty, isCalculating = False\<rparr>))
     20666 34 (getDaysInMonth 20635 31) = Some 150 \<and>
   date (getDaysInMonth 20666 31 ! 6) = 20666 \<and>
   date (getDaysInMonth 20635 31 ! 34) = 20666 \<and>
   getDay 20666 = 6 \<and>
   map (\<lambda>d. map_option d_pnl (calendarDay dayKey lastWeekOfJuly2026 10000 d))
     [20661, 20662, 20663, 20664, 20665] = [Some 100, Some (-50), Some 25, Some 0, Some 75]"
proof -
  let ?aug = "monthData (calculateMonthData dayKey lastWeekOfJuly2026 10000 20666 31
                   \<lparr>monthData = Map.empty, isCalculating = False\<rparr>)"
  let ?jul = "monthData (calculateMonthData dayKey lastWeekOfJuly2026 10000 20635 31
                   \<lparr>monthData = Map.empty, isCalculating = False\<rparr>)"
  have la: "6 < length (getDaysInMonth 20666 31)"
    by (simp add: length_getDaysInMonth gridLength_def getDay_def)
  have da: "date (getDaysInMonth 20666 31 ! 6) = 20666"
    by (simp add: nth_getDaysInMonth gridLength_def gridStart_def getDay_def)
  have lj: "34 < length (getDaysInMonth 20635 31)"
    by (simp add: length_getDaysInMonth gridLength_def getDay_def)
  have dj: "date (getDaysInMonth 20635 31 ! 34) = 20666"
    by (simp add: nth_getDaysInMonth gridLength_def gridStart_def getDay_def)
  have g: "getDay 20666 = 6" by (simp add: getDay_def)
  have ma: "?aug (dayKey x) =
      (if 20666 \<le> x \<and> x < 20666 + int 31 then calendarDay dayKey lastWeekOfJuly2026 10000 x else None)" for x
    by (rule calculateMonthData_lookup[OF inj_dayKey]) simp
  have mj: "?jul (dayKey x) =
      (if 20635 \<le> x \<and> x < 20635 + int 31 then calendarDay dayKey lastWeekOfJuly2026 10000 x else None)" for x
    by (rule calculateMonthData_lookup[OF inj_dayKey]) simp
  have wa: "calculateWeeklyPnL dayKey ?aug 20666 (int 6) (getDaysInMonth 20666 31)
      = spec_weeklyPnL dayKey ?aug 20666"
    using calculateWeeklyPnL_saturday[OF la, of dayKey ?aug] unfolding da using g by simp
  have wj: "calculateWeeklyPnL dayKey ?jul 20666 (int 34) (getDaysInMonth 20635 31)
      = spec_weeklyPnL dayKey ?jul 20666"
    using calculateWeeklyPnL_saturday[OF lj, of dayKey ?jul] unfolding dj using g by simp
  have sa: "spec_weeklyPnL dayKey ?aug 20666 = None"
    unfolding spec_weeklyPnL_def weekdaysBefore_def by (simp add: ma)
  have sj: "spec_weeklyPnL dayKey ?jul 20666 = Some 150"
    unfolding spec_weeklyPnL_def weekdaysBefore_def
    by (simp add: mj daily_pnl_last_week_of_july)
  show ?thesis
    using wa wj sa sj da dj g by (simp add: daily_pnl_last_week_of_july)
qed

section \<open>Properties of the computed account size\<close>

lemma get_realizedPnL_fresh:
  "c_realizedPnL (accountCache s) = None \<Longrightarrow>
   fst (get_realizedPnL s) = calculateRealizedPnL (journal_entries s)"
  by (simp add: get_realizedPnL_def recalculateRealizedPnL_def Let_def)

lemma currentSize_after_invalidation:
  "fst (get_currentSize (invalidateAccountCache s)) =
     settings_startingAccountSize s + calculateRealizedPnL (journal_entries s) +
     (cashFlow_totalDeposits s - cashFlow_totalWithdrawals s)"
  by (simp add: get_currentSize_def recalculateCurrentSize_def get_realizedPnL_def
      recalculateRealizedPnL_def invalidateAccountCache_def getCashFlowNet_def Let_def
      split: prod.splits)

lemma currentSize_read_first_after_settings_change:
  "fst (get_currentSize (updateSettings 20000 (snd (get_currentSize initialState)))) = 20000"
  by (simp add: get_currentSize_def recalculateCurrentSize_def get_realizedPnL_def
      recalculateRealizedPnL_def needsRecalculation_def updateCacheDependencies_def
      updateSettings_def initialState_def getCashFlowNet_def calculateRealizedPnL_def
      hashTrades_def hashCashFlow_def Let_def)

lemma foldl_signed_amounts:
  "foldl (\<lambda>sum txn. sum + (if tx_type txn = ''deposit'' then tx_amount txn else - tx_amount txn)) a txs
     = a + sum_list (map (\<lambda>txn. if tx_type txn = ''deposit'' then tx_amount txn else - tx_amount txn) txs)"
  for a :: real
  by (induction txs arbitrary: a) simp_all

lemma getNetCashFlow_Cons:
  "getNetCashFlow (txn # txs) =
     (if tx_type txn = ''deposit'' then tx_amount txn else - tx_amount txn) + getNetCashFlow txs"
  by (simp add: getNetCashFlow_def foldl_signed_amounts)

lemma get_realizedPnL_keeps_ledger:
  "settings_startingAccountSize (snd (get_realizedPnL s)) = settings_startingAccountSize s \<and>
   journal_entries (snd (get_realizedPnL s)) = journal_entries s \<and>
   cashFlow_transactions (snd (get_realizedPnL s)) = cashFlow_transactions s \<and>
   cashFlow_totalDeposits (snd (get_realizedPnL s)) = cashFlow_totalDeposits s \<and>
   cashFlow_totalWithdrawals (snd (get_realizedPnL s)) = cashFlow_totalWithdrawals s"
  by (simp add: get_realizedPnL_def recalculateRealizedPnL_def needsRecalculation_def
      updateCacheDependencies_def Let_def split: option.splits prod.splits)

lemma get_currentSize_keeps_ledger:
  "settings_startingAccountSize (snd (get_currentSize s)) = settings_startingAccountSize s \<and>
   journal_entries (snd (get_currentSize s)) = journal_entries s \<and>
   cashFlow_transactions (snd (get_currentSize s)) = cashFlow_transactions s \<and>
   cashFlow_totalDeposits (snd (get_currentSize s)) = cashFlow_totalDeposits s \<and>
   cashFlow_totalWithdrawals (snd (get_currentSize s)) = cashFlow_totalWithdrawals s"
proof -
  have r: "settings_startingAccountSize (snd (recalculateCurrentSize t)) = settings_startingAccountSize t \<and>
   journal_entries (snd (recalculateCurrentSize t)) = journal_entries t \<and>
   cashFlow_transactions (snd (recalculateCurrentSize t)) = cashFlow_transactions t \<and>
   cashFlow_totalDeposits (snd (recalculateCurrentSize t)) = cashFlow_totalDeposits t \<and>
   cashFlow_totalWithdrawals (snd (recalculateCurrentSize t)) = cashFlow_totalWithdrawals t" for t
    using get_realizedPnL_keeps_ledger[of t]
    by (cases "get_realizedPnL t") (simp add: recalculateCurrentSize_def Let_def)
  show ?thesis
  proof (cases "c_currentSize (accountCache s)")
    case None
    then show ?thesis using r[of s] by (simp add: get_currentSize_def)
  next
    case (Some cached)
    then show ?thesis
      using r[of "snd (needsRecalculation s)"]
      by (auto simp add: get_currentSize_def needsRecalculation_def Let_def split: prod.splits if_splits)
  qed
qed

lemma addCashFlowTransaction_keeps_totals_in_step:
  assumes "getCashFlowNet s = getNetCashFlow (cashFlow_transactions s)"
    and "type = ''deposit'' \<or> type = ''withdrawal''"
  shows "getCashFlowNet (addCashFlowTransaction newId type amount s) =
         getNetCashFlow (cashFlow_transactions (addCashFlowTransaction newId type amount s))"
  using assms get_currentSize_keeps_ledger
  by (auto simp add: addCashFlowTransaction_def Let_def getCashFlowNet_def getNetCashFlow_Cons
      invalidateAccountCache_def)

text \<open>
  Claim C1.  The claim that \<^verbatim>\<open>state.currentSize\<close> equals the starting account size
  plus the realized P\&L plus the net cash flow in every state is what the getter is
  documented to compute, and it does so whenever it recalculates (for instance right after
  an invalidation, see \<open>currentSize_after_invalidation\<close>).  The cache check breaks it:
  on a fresh state with starting size 10000, after one read of \<^verbatim>\<open>currentSize\<close>, a
  change of the starting size to 20000 through \<^verbatim>\<open>updateSettings\<close> and one read of
  \<^verbatim>\<open>realizedPnL\<close> (which refreshes the shared dependency hashes), the next read of
  \<^verbatim>\<open>currentSize\<close> returns the cached 10000 although the formula gives 20000.
\<close>
theorem currentSize_stale_after_settings_change:
  "fst (get_currentSize (snd (get_realizedPnL (updateSettings 20000 (snd (get_currentSize initialState))))))
     = 10000 \<and>
   settings_startingAccountSize
       (snd (get_realizedPnL (updateSettings 20000 (snd (get_currentSize initialState)))))
     + calculateRealizedPnL
         (journal_entries (snd (get_realizedPnL (updateSettings 20000 (snd (get_currentSize initialState))))))
     + getCashFlowNet (snd (get_realizedPnL (updateSettings 20000 (snd (get_currentSize initialState)))))
     = 20000"
  by (simp add: get_currentSize_def recalculateCurrentSize_def get_realizedPnL_def
      recalculateRealizedPnL_def needsRecalculation_def updateCacheDependencies_def
      updateSettings_def initialState_def getCashFlowNet_def calculateRealizedPnL_def
      hashTrades_def hashCashFlow_def Let_def)

end
